theory Spec2Isabelle
  imports Complex_Main
begin

section \<open>JavaScript numbers\<close>

text \<open>
  The scores of the service are JavaScript numbers. A number is modelled as an exact
  rational, or one of the three special values that the arithmetic of the program can
  produce: \<open>NaN\<close> (from \<open>0 / 0\<close>) and the two infinities (from \<open>x / 0\<close>).
  The binary rounding error of IEEE doubles and the sign of zero are not modelled; every
  zero divisor of the program is a length or a sum of durations, hence \<open>+0\<close>.
  Sums, products and quotients are therefore exact here, where the program rounds each of
  them to the nearest double. A statement below that gives the value of a result that
  the program computes with such roundings says how near the result is to the exact
  value, and not that the two are equal.
\<close>

datatype jsnum = Fin rat | PInf | NInf | NaN

fun js_add :: "jsnum \<Rightarrow> jsnum \<Rightarrow> jsnum" where
  "js_add (Fin a) (Fin b) = Fin (a + b)"
| "js_add NaN _ = NaN"
| "js_add _ NaN = NaN"
| "js_add PInf NInf = NaN"
| "js_add NInf PInf = NaN"
| "js_add PInf _ = PInf"
| "js_add _ PInf = PInf"
| "js_add NInf _ = NInf"
| "js_add _ NInf = NInf"

fun js_neg :: "jsnum \<Rightarrow> jsnum" where
  "js_neg (Fin a) = Fin (- a)"
| "js_neg PInf = NInf"
| "js_neg NInf = PInf"
| "js_neg NaN = NaN"

definition js_sub :: "jsnum \<Rightarrow> jsnum \<Rightarrow> jsnum" where
  "js_sub x y = js_add x (js_neg y)"

fun js_mul :: "jsnum \<Rightarrow> jsnum \<Rightarrow> jsnum" where
  "js_mul (Fin a) (Fin b) = Fin (a * b)"
| "js_mul NaN _ = NaN"
| "js_mul _ NaN = NaN"
| "js_mul PInf (Fin b) = (if b = 0 then NaN else if 0 < b then PInf else NInf)"
| "js_mul NInf (Fin b) = (if b = 0 then NaN else if 0 < b then NInf else PInf)"
| "js_mul (Fin a) PInf = (if a = 0 then NaN else if 0 < a then PInf else NInf)"
| "js_mul (Fin a) NInf = (if a = 0 then NaN else if 0 < a then NInf else PInf)"
| "js_mul PInf PInf = PInf"
| "js_mul NInf NInf = PInf"
| "js_mul PInf NInf = NInf"
| "js_mul NInf PInf = NInf"

fun js_div :: "jsnum \<Rightarrow> jsnum \<Rightarrow> jsnum" where
  "js_div (Fin a) (Fin b) =
     (if b = 0 then (if a = 0 then NaN else if 0 < a then PInf else NInf)
      else Fin (a / b))"
| "js_div NaN _ = NaN"
| "js_div _ NaN = NaN"
| "js_div (Fin a) PInf = Fin 0"
| "js_div (Fin a) NInf = Fin 0"
| "js_div PInf (Fin b) = (if 0 \<le> b then PInf else NInf)"
| "js_div NInf (Fin b) = (if 0 \<le> b then NInf else PInf)"
| "js_div PInf PInf = NaN"
| "js_div PInf NInf = NaN"
| "js_div NInf PInf = NaN"
| "js_div NInf NInf = NaN"

text \<open>\<open>x > y\<close>: false as soon as one side is \<open>NaN\<close>.\<close>

fun js_gt :: "jsnum \<Rightarrow> jsnum \<Rightarrow> bool" where
  "js_gt (Fin a) (Fin b) = (b < a)"
| "js_gt NaN _ = False"
| "js_gt _ NaN = False"
| "js_gt PInf PInf = False"
| "js_gt PInf _ = True"
| "js_gt _ PInf = False"
| "js_gt NInf _ = False"
| "js_gt _ NInf = True"

text \<open>
  \<open>Number(x.toFixed(0))\<close>: \<open>toFixed\<close> rounds the magnitude to the nearest integer,
  the larger one of two equally near, and keeps the sign; \<open>NaN\<close> and the infinities
  print as their names, which \<open>Number\<close> reads back.
\<close>

definition round_half_away :: "rat \<Rightarrow> int" where
  "round_half_away x = (if x < 0 then - \<lfloor>- x + 1 / 2\<rfloor> else \<lfloor>x + 1 / 2\<rfloor>)"

fun toFixed0 :: "jsnum \<Rightarrow> jsnum" where
  "toFixed0 (Fin a) = Fin (of_int (round_half_away a))"
| "toFixed0 PInf = PInf"
| "toFixed0 NInf = NInf"
| "toFixed0 NaN = NaN"

text \<open>
  \<open>_.sum\<close>: the elements added up from left to right; the sum of the empty array is
  \<open>0\<close>.
\<close>

definition lodash_sum :: "jsnum list \<Rightarrow> jsnum" where
  "lodash_sum xs = (case xs of [] \<Rightarrow> Fin 0 | x # ys \<Rightarrow> foldl js_add x ys)"


text \<open>\<open>xs[i]\<close>: \<open>None\<close> is \<open>undefined\<close>, the value of a read past the end.\<close>

definition at_index :: "'a list \<Rightarrow> nat \<Rightarrow> 'a option" where
  "at_index xs i = (if i < length xs then Some (xs ! i) else None)"

section \<open>Text normalisation\<close>

text \<open>
  Strings are lists of 8-bit characters read as the code points 0 to 255 (the reference
  text is a request header, which the server decodes as Latin-1). Lower-casing is that of
  a host locale without special casing rules.
\<close>

definition toLowerCase_char :: "char \<Rightarrow> char" where
  "toLowerCase_char c =
     (let n = (of_char c :: nat)
      in if (65 \<le> n \<and> n \<le> 90) \<or> (192 \<le> n \<and> n \<le> 222 \<and> n \<noteq> 215)
         then char_of (n + 32) else c)"

definition toLowerCase :: "string \<Rightarrow> string" where
  "toLowerCase s = map toLowerCase_char s"

definition toLocaleLowerCase :: "string \<Rightarrow> string" where
  "toLocaleLowerCase s = map toLowerCase_char s"

text \<open>
  The character class of the first regular expression,
  \<^verbatim>\<open>[!"#$%&()*+,-./:;<=>?@[^_`{|}~]+\<close>: inside the class \<^verbatim>\<open>,-.\<close> is the range from the
  comma to the full stop, which holds exactly the comma, the hyphen and the full stop.
  Replacing every match by the empty string deletes every character of the class.
\<close>

definition punctuation :: "char list" where
  "punctuation = CHR 0x22 # ''!#$%&()*+,-./:;<=>?@[^_`{|}~''"

definition delete_punctuation :: "string \<Rightarrow> string" where
  "delete_punctuation s = filter (\<lambda>c. c \<notin> set punctuation) s"

text \<open>The second regular expression, \<^verbatim>\<open>]+\<close>.\<close>

definition delete_brackets :: "string \<Rightarrow> string" where
  "delete_brackets s = filter (\<lambda>c. c \<noteq> CHR '']'') s"

definition normalize_text :: "string \<Rightarrow> string" where
  "normalize_text s = delete_brackets (delete_punctuation (toLocaleLowerCase s))"

text \<open>\<open>s.split(" ")\<close>: one piece more than there are spaces; \<open>"".split(" ")\<close> is \<open>[""]\<close>.\<close>

fun split_space :: "string \<Rightarrow> string list" where
  "split_space [] = [[]]"
| "split_space (c # cs) =
     (if c = CHR '' '' then [] # split_space cs
      else (case split_space cs of p # ps \<Rightarrow> (c # p) # ps | [] \<Rightarrow> [[c]]))"

text \<open>\<open>xs.join(" ")\<close>.\<close>

fun join_space :: "string list \<Rightarrow> string" where
  "join_space [] = []"
| "join_space [x] = x"
| "join_space (x # y # ys) = x @ '' '' @ join_space (y # ys)"

text \<open>
  \<open>s.trim()\<close> removes white space and line terminators from both ends; among the code
  points below 256 these are 9 to 13, 32 and 160.
\<close>

definition is_whitespace :: "char \<Rightarrow> bool" where
  "is_whitespace c = ((of_char c :: nat) \<in> {9, 10, 11, 12, 13, 32, 160})"

definition trim :: "string \<Rightarrow> string" where
  "trim s = rev (dropWhile is_whitespace (rev (dropWhile is_whitespace s)))"

text \<open>
  The two token sequences that are handed to the sequence matcher. The reference tokens
  (\<open>wholelyricsArryRes\<close>) are the pieces of the normalised reference text, the empty
  pieces dropped and then each piece trimmed. The recognized tokens (\<open>resTextArray\<close>) are
  the pieces of the normalised recognized text as the split returns them.
\<close>

definition wholelyricsArryRes :: "string \<Rightarrow> string list" where
  "wholelyricsArryRes referenceText =
     map trim (filter (\<lambda>item. item \<noteq> []) (split_space (normalize_text referenceText)))"

definition resTextArray :: "string list \<Rightarrow> string list" where
  "resTextArray currentText = split_space (normalize_text (join_space currentText))"

section \<open>Data of a recognition session\<close>

text \<open>
  A word of the engine's JSON result. \<open>AccuracyScore\<close> and \<open>ErrorType\<close> are the fields of
  its \<open>PronunciationAssessment\<close> object. Offsets and durations are counts of ticks.
\<close>

record word =
  Word :: string
  Offset :: nat
  Duration :: nat
  AccuracyScore :: "rat option"
  ErrorType :: string

datatype ResultReason = NoMatch | Canceled | RecognizingSpeech | RecognizedSpeech

text \<open>
  The argument of a \<open>recognized\<close> event: the reason of the result, and of the parsed JSON
  result the status and the first entry of \<open>NBest\<close>.
\<close>

record event =
  reason :: ResultReason
  RecognitionStatus :: string
  Words :: "word list"
  FluencyScore :: rat
  ProsodyScore :: rat

record scoreNumber =
  accuracyScore :: jsnum
  fluencyScore :: jsnum
  compScore :: jsnum
  prosodyScore :: jsnum
  pronScore :: "jsnum option"

text \<open>
  The variables of \<open>continueRecognize\<close> that its callbacks share. The word objects live in
  \<open>heap\<close>, and \<open>allWords\<close> and \<open>recognizedWords\<close> hold references (indices into \<open>heap\<close>) to
  them: the program pushes the same objects on both arrays, and the classifier's
  assignment to \<open>ErrorType\<close> through \<open>allWords\<close> is seen through \<open>recognizedWords\<close>. Of
  \<open>jo\<close>, the last parsed result, only \<open>RecognitionStatus\<close> is read outside the handler
  that parsed it; \<open>None\<close> is the initial \<open>{}\<close>, which has no such field.
\<close>

record session =
  referenceText :: string
  scoreNumber :: scoreNumber
  heap :: "word list"
  allWords :: "nat list"
  currentText :: "string list"
  startOffset :: nat
  recognizedWords :: "nat list"
  fluencyScores :: "rat list"
  prosodyScores :: "rat list"
  durations :: "nat list"
  jo_RecognitionStatus :: "string option"
  recoginzedError :: "ResultReason option"

definition continueRecognize :: "string \<Rightarrow> session" where
  "continueRecognize text =
     \<lparr>referenceText = text,
      scoreNumber = \<lparr>accuracyScore = Fin 0, fluencyScore = Fin 0, compScore = Fin 0,
                     prosodyScore = Fin 0, pronScore = None\<rparr>,
      heap = [], allWords = [], currentText = [], startOffset = 0, recognizedWords = [],
      fluencyScores = [], prosodyScores = [], durations = [],
      jo_RecognitionStatus = None, recoginzedError = None\<rparr>"

datatype js_error = TypeError

section \<open>The \<open>recognized\<close> handler\<close>

text \<open>
  The handler returns the session as it leaves it, and the error if it threw. Reading
  \<open>nb.Words[0].Offset\<close> throws when the result has no word; by then the handler has
  stored the parsed result and, for a reason other than \<open>RecognizedSpeech\<close>, the error
  mark, and nothing else. (A result without \<open>NBest\<close> throws at the same point, one
  statement earlier, with the same effect.)
\<close>

definition recognized :: "session \<Rightarrow> event \<Rightarrow> js_error option \<times> session" where
  "recognized s e =
     (let s1 = s\<lparr>recoginzedError :=
                   (if reason e \<noteq> RecognizedSpeech then Some RecognizedSpeech
                    else recoginzedError s),
                 jo_RecognitionStatus := Some (RecognitionStatus e)\<rparr>
      in case Words e of
           [] \<Rightarrow> (Some TypeError, s1)
         | w # _ \<Rightarrow>
            (let localtext = map (\<lambda>item. toLowerCase (Word item)) (Words e);
                 isSucceeded = (RecognitionStatus e = ''Success'');
                 nBestWords = [length (heap s) ..< length (heap s) + length (Words e)]
             in (None,
                 s1\<lparr>startOffset := Offset w,
                    currentText := currentText s @ localtext,
                    fluencyScores := fluencyScores s @ [FluencyScore e],
                    prosodyScores := prosodyScores s @ [ProsodyScore e],
                    heap := heap s @ Words e,
                    recognizedWords := recognizedWords s @ nBestWords,
                    durations := durations s @ [sum_list (map Duration (Words e))],
                    allWords := (if isSucceeded then allWords s @ nBestWords
                                 else allWords s)\<rparr>)))"

text \<open>
  A sequence of \<open>recognized\<close> events, in arrival order. The engine calls the handler once
  per event; an event whose handler threw leaves the session as the handler left it.
\<close>

definition recognized_all :: "session \<Rightarrow> event list \<Rightarrow> session" where
  "recognized_all s es = foldl (\<lambda>s e. snd (recognized s e)) s es"

section \<open>The error classifier\<close>

text \<open>
  An opcode of the sequence matcher: the tag and the half-open index ranges
  \<open>i1..i2\<close> into the reference tokens and \<open>j1..j2\<close> into the recognized tokens.
\<close>

datatype tag = Equal | Replace | Delete | Insert

type_synonym opcode = "tag \<times> nat \<times> nat \<times> nat \<times> nat"

text \<open>
  An element of \<open>lastWords\<close>: \<open>undefined\<close>, a reference to a word object of the engine, or
  an object that the classifier made, of which \<open>Word\<close> and \<open>ErrorType\<close> are the only fields.
\<close>

datatype lastword = Undefined | Recognized nat | Synthesized "string option" string

type_synonym classifier_state = "word list \<times> lastword list"

definition allWords_at :: "nat list \<Rightarrow> nat \<Rightarrow> lastword" where
  "allWords_at aw j = (case at_index aw j of None \<Rightarrow> Undefined | Some a \<Rightarrow> Recognized a)"

definition is_terminal :: "string option \<Rightarrow> bool" where
  "is_terminal st = (st = Some ''Success'' \<or> st = Some ''Failed'')"

text \<open>
  The loop over \<open>j\<close> of an \<open>insert\<close> or \<open>replace\<close> opcode. When \<open>allWords\<close> is not empty
  the condition reads \<open>allWords[j].PronunciationAssessment\<close>, which throws for an index
  past the end; when it is empty the condition stops before, and \<open>undefined\<close> is pushed.
\<close>

fun insertion_loop :: "nat list \<Rightarrow> nat list \<Rightarrow> classifier_state \<Rightarrow> js_error + classifier_state" where
  "insertion_loop aw [] c = Inr c"
| "insertion_loop aw (j # js) (h, lw) =
     (if aw \<noteq> [] then
        (case at_index aw j of
           None \<Rightarrow> Inl TypeError
         | Some a \<Rightarrow>
            insertion_loop aw js
              (if ErrorType (h ! a) \<noteq> ''Insertion''
               then h[a := (h ! a)\<lparr>ErrorType := ''Insertion''\<rparr>] else h,
               lw @ [Recognized a]))
      else insertion_loop aw js (h, lw @ [allWords_at aw j]))"

definition omission_loop :: "string list \<Rightarrow> nat list \<Rightarrow> classifier_state \<Rightarrow> classifier_state" where
  "omission_loop ref idxs c =
     (fst c, snd c @ map (\<lambda>i. Synthesized (at_index ref i) ''Omission'') idxs)"

definition equal_loop :: "nat list \<Rightarrow> nat list \<Rightarrow> classifier_state \<Rightarrow> classifier_state" where
  "equal_loop aw ks c = (fst c, snd c @ map (allWords_at aw) ks)"

text \<open>
  The body of the loop over the opcodes. The \<open>continue\<close> of the second branch skips the
  third test, which is false for a \<open>delete\<close> or \<open>replace\<close> opcode anyway.
\<close>

fun classify_opcode ::
  "string list \<Rightarrow> string option \<Rightarrow> nat list \<Rightarrow> classifier_state \<Rightarrow> opcode
     \<Rightarrow> js_error + classifier_state" where
  "classify_opcode ref st aw c (t, i1, i2, j1, j2) =
     (case (if t = Insert \<or> t = Replace then insertion_loop aw [j1..<j2] c else Inr c) of
        Inl err \<Rightarrow> Inl err
      | Inr c1 \<Rightarrow>
         if t = Delete \<or> t = Replace then
           (if i2 = length ref \<and> \<not> is_terminal st then Inr c1
            else Inr (omission_loop ref [i1..<i2] c1))
         else if t = Equal then Inr (equal_loop aw [j1..<j2] c1)
         else Inr c1)"

fun classify ::
  "string list \<Rightarrow> string option \<Rightarrow> nat list \<Rightarrow> classifier_state \<Rightarrow> opcode list
     \<Rightarrow> js_error + classifier_state" where
  "classify ref st aw c [] = Inr c"
| "classify ref st aw c (d # ds) =
     (case classify_opcode ref st aw c d of
        Inl err \<Rightarrow> Inl err
      | Inr c1 \<Rightarrow> classify ref st aw c1 ds)"

text \<open>
  How the classifier may change the heap: every word object stays as it is or gets the
  tag \<open>Insertion\<close>. (Used to state what the classifier leaves untouched.)
\<close>

definition retagged :: "word list \<Rightarrow> word list \<Rightarrow> bool" where
  "retagged h h' =
     (length h' = length h
      \<and> (\<forall>a < length h. h' ! a = h ! a \<or> h' ! a = (h ! a)\<lparr>ErrorType := ''Insertion''\<rparr>))"

section \<open>The score aggregator\<close>

text \<open>
  What a word of \<open>lastWords\<close> adds to \<open>accuracyScores\<close>: nothing if it is \<open>undefined\<close> or
  tagged \<open>Insertion\<close>, else its \<open>AccuracyScore\<close>, and \<open>0\<close> where it has none.
\<close>

fun accuracy_entry :: "word list \<Rightarrow> lastword \<Rightarrow> jsnum option" where
  "accuracy_entry h Undefined = None"
| "accuracy_entry h (Recognized a) =
     (if ErrorType (h ! a) \<noteq> ''Insertion''
      then Some (case AccuracyScore (h ! a) of None \<Rightarrow> Fin 0 | Some x \<Rightarrow> Fin x) else None)"
| "accuracy_entry h (Synthesized w et) = (if et \<noteq> ''Insertion'' then Some (Fin 0) else None)"

fun accuracyScores :: "word list \<Rightarrow> lastword list \<Rightarrow> jsnum list \<Rightarrow> jsnum list" where
  "accuracyScores h [] acc = acc"
| "accuracyScores h (w # ws) acc =
     accuracyScores h ws (case accuracy_entry h w of None \<Rightarrow> acc | Some x \<Rightarrow> acc @ [x])"

text \<open>\<open>x * durations[index]\<close> for every fluency score; a missing duration gives \<open>NaN\<close>.\<close>

fun sumRes :: "nat list \<Rightarrow> nat \<Rightarrow> rat list \<Rightarrow> jsnum list" where
  "sumRes ds index [] = []"
| "sumRes ds index (x # xs) =
     (case at_index ds index of None \<Rightarrow> NaN | Some d \<Rightarrow> Fin (x * of_nat d))
       # sumRes ds (Suc index) xs"

text \<open>
  \<open>Object.keys(scoreNumber).sort(...)\<close>. The keys come in the order of their creation;
  \<open>pronScore\<close> exists once it has been assigned. The comparison function subtracts the
  values, and the sort takes a \<open>NaN\<close> difference for \<open>0\<close>. The sort is stable, so it is
  modelled by insertion from the right, each key going before the first key that is not
  smaller. (With a \<open>NaN\<close> among the values the comparison is not consistent, and the order
  is then left to the implementation.)
\<close>

datatype key = K_accuracyScore | K_fluencyScore | K_compScore | K_prosodyScore | K_pronScore

definition keys :: "scoreNumber \<Rightarrow> key list" where
  "keys sn = [K_accuracyScore, K_fluencyScore, K_compScore, K_prosodyScore]
               @ (case pronScore sn of None \<Rightarrow> [] | Some _ \<Rightarrow> [K_pronScore])"

fun get :: "scoreNumber \<Rightarrow> key \<Rightarrow> jsnum" where
  "get sn K_accuracyScore = accuracyScore sn"
| "get sn K_fluencyScore = fluencyScore sn"
| "get sn K_compScore = compScore sn"
| "get sn K_prosodyScore = prosodyScore sn"
| "get sn K_pronScore = (case pronScore sn of None \<Rightarrow> NaN | Some x \<Rightarrow> x)"

definition sort_before :: "scoreNumber \<Rightarrow> key \<Rightarrow> key \<Rightarrow> bool" where
  "sort_before sn a b =
     (case js_sub (get sn a) (get sn b) of
        Fin v \<Rightarrow> v \<le> 0 | PInf \<Rightarrow> False | NInf \<Rightarrow> True | NaN \<Rightarrow> True)"

fun sort_insert :: "scoreNumber \<Rightarrow> key \<Rightarrow> key list \<Rightarrow> key list" where
  "sort_insert sn a [] = [a]"
| "sort_insert sn a (b # bs) =
     (if sort_before sn a b then a # b # bs else b # sort_insert sn a bs)"

definition sortScore :: "scoreNumber \<Rightarrow> key list" where
  "sortScore sn = foldr (sort_insert sn) (keys sn) []"

definition pronScore_of :: "string option \<Rightarrow> scoreNumber \<Rightarrow> jsnum" where
  "pronScore_of st sn =
     (if st = Some ''Success'' \<or> st = Some ''Failed'' then
        toFixed0
          (js_add
            (js_add
              (js_add (js_mul (get sn (sortScore sn ! 0)) (Fin (4 / 10)))
                      (js_mul (get sn (sortScore sn ! 1)) (Fin (2 / 10))))
              (js_mul (get sn (sortScore sn ! 2)) (Fin (2 / 10))))
            (js_mul (get sn (sortScore sn ! 3)) (Fin (2 / 10))))
      else
        toFixed0
          (js_add
            (js_add (js_mul (accuracyScore sn) (Fin (6 / 10)))
                    (js_mul (fluencyScore sn) (Fin (2 / 10))))
            (js_mul (prosodyScore sn) (Fin (2 / 10)))))"

text \<open>
  \<open>calculateOverallPronunciationScore\<close>. The sequence matcher is a library outside the
  repository; \<open>getOpcodes\<close> stands for the opcodes it computes from the two token
  sequences. The function throws if the classifier does.
\<close>

definition calculateOverallPronunciationScore ::
  "(string list \<Rightarrow> string list \<Rightarrow> opcode list) \<Rightarrow> session \<Rightarrow> js_error + session" where
  "calculateOverallPronunciationScore getOpcodes s =
     (let reference_words = wholelyricsArryRes (referenceText s);
          hyp = resTextArray (currentText s)
      in case classify reference_words (jo_RecognitionStatus s) (allWords s) (heap s, [])
                (getOpcodes reference_words hyp) of
           Inl err \<Rightarrow> Inl err
         | Inr (h, lastWords) \<Rightarrow>
            (let recognizedWordsRes =
                   filter (\<lambda>a. ErrorType (h ! a) = ''None'') (recognizedWords s);
                 comp = toFixed0
                          (js_mul
                            (js_div (Fin (of_nat (length recognizedWordsRes)))
                                    (Fin (of_nat (length reference_words))))
                            (Fin 100));
                 sn1 = (scoreNumber s)
                         \<lparr>compScore := (if js_gt comp (Fin 100) then Fin 100 else comp)\<rparr>;
                 accs = accuracyScores h lastWords [];
                 sn2 = sn1\<lparr>accuracyScore :=
                             toFixed0 (js_div (lodash_sum accs) (Fin (of_nat (length accs))))\<rparr>;
                 sn3 = (if startOffset s \<noteq> 0
                        then sn2\<lparr>fluencyScore :=
                                   js_div (lodash_sum (sumRes (durations s) 0 (fluencyScores s)))
                                          (lodash_sum (map (\<lambda>d. Fin (of_nat d)) (durations s)))\<rparr>
                        else sn2);
                 sn4 = sn3\<lparr>prosodyScore :=
                             js_div (lodash_sum (map Fin (prosodyScores s)))
                                    (Fin (of_nat (length (prosodyScores s))))\<rparr>
             in Inr (s\<lparr>heap := h,
                       scoreNumber :=
                         sn4\<lparr>pronScore := Some (pronScore_of (jo_RecognitionStatus s) sn4)\<rparr>\<rparr>)))"

text \<open>
  Two properties of a score, used to state the range of the results: the score is \<open>NaN\<close>
  or a number from 0 to 100; it is \<open>NaN\<close> or an integer from 0 to 100.
\<close>

definition percent :: "jsnum \<Rightarrow> bool" where
  "percent x = (x = NaN \<or> (\<exists>q. x = Fin q \<and> 0 \<le> q \<and> q \<le> 100))"

definition whole_percent :: "jsnum \<Rightarrow> bool" where
  "whole_percent x = (x = NaN \<or> (\<exists>k::int. x = Fin (of_int k) \<and> 0 \<le> k \<and> k \<le> 100))"

section \<open>The \<open>sessionStopped\<close> handler and the response\<close>

record scores =
  Scores_AccuracyScore :: jsnum
  Scores_CompletenessScore :: jsnum
  Scores_FluencyScore :: jsnum
  Scores_PronScore :: "jsnum option"
  Scores_ProsodyScore :: jsnum

record result =
  Scores :: scores
  Result_Words :: "word list"
  Error :: "ResultReason option"

text \<open>
  The handler computes the scores and resolves the promise with the result; if the
  computation throws, the promise is not resolved.
\<close>

definition sessionStopped ::
  "(string list \<Rightarrow> string list \<Rightarrow> opcode list) \<Rightarrow> session \<Rightarrow> js_error + result" where
  "sessionStopped getOpcodes s =
     (case calculateOverallPronunciationScore getOpcodes s of
        Inl err \<Rightarrow> Inl err
      | Inr s1 \<Rightarrow>
         Inr \<lparr>Scores =
                \<lparr>Scores_AccuracyScore = accuracyScore (scoreNumber s1),
                 Scores_CompletenessScore = compScore (scoreNumber s1),
                 Scores_FluencyScore = fluencyScore (scoreNumber s1),
                 Scores_PronScore = pronScore (scoreNumber s1),
                 Scores_ProsodyScore = prosodyScore (scoreNumber s1)\<rparr>,
              Result_Words = map (\<lambda>a. heap s1 ! a) (allWords s1),
              Error = recoginzedError s1\<rparr>)"

text \<open>
  The route \<open>/pronunciationAssessment\<close> from the point where it starts the recognition.
  \<open>audioDuration\<close> is the number read from the request header (\<open>0\<close> when the header is
  missing or not a number). The route starts one of two recognitions: \<open>once\<close> is what the
  single-shot recognition settles with, the reason of its result, and \<open>cont\<close> what
  \<open>continueRecognize\<close> settles with; \<open>None\<close> is a rejected promise, which the \<open>catch\<close>
  block answers. The assessment that the engine computes on the single-shot path is not
  modelled. The reasons print as the numbers of the engine's enumeration.
\<close>

definition isShortAudio :: "rat \<Rightarrow> bool" where
  "isShortAudio audioDuration = (audioDuration \<le> 30)"

datatype payload = Engine_assessment | Continuous_result result

record response =
  status :: nat
  code :: nat
  message :: string
  data :: "payload option"

definition reason_code :: "ResultReason option \<Rightarrow> string" where
  "reason_code r =
     (case r of None \<Rightarrow> ''undefined'' | Some NoMatch \<Rightarrow> ''0'' | Some Canceled \<Rightarrow> ''1''
      | Some RecognizingSpeech \<Rightarrow> ''2'' | Some RecognizedSpeech \<Rightarrow> ''3'')"

definition catch_response :: response where
  "catch_response =
     \<lparr>status = 500, code = 500, message = ''An error occurred during recognition.'',
      data = None\<rparr>"

definition pronunciationAssessment ::
  "rat \<Rightarrow> ResultReason option \<Rightarrow> result option \<Rightarrow> response" where
  "pronunciationAssessment audioDuration once cont =
     (if isShortAudio audioDuration then
        (case once of
           None \<Rightarrow> catch_response
         | Some r \<Rightarrow>
            if r = RecognizedSpeech
            then \<lparr>status = 200, code = 200, message = ''Success'',
                  data = Some Engine_assessment\<rparr>
            else if r = NoMatch
            then \<lparr>status = 500, code = 500, message = ''NoMatch'', data = None\<rparr>
            else \<lparr>status = 500, code = 500,
                  message = ''Recognition failed with reason: '' @ reason_code (Some r),
                  data = None\<rparr>)
      else
        (case cont of
           None \<Rightarrow> catch_response
         | Some res \<Rightarrow>
            if length (Result_Words res) > 1
            then \<lparr>status = 200, code = 200, message = ''Success'',
                  data = Some (Continuous_result res)\<rparr>
            else \<lparr>status = 500, code = 500,
                  message = ''Recognition failed with reason code: '' @ reason_code (Error res),
                  data = None\<rparr>))"

section \<open>Example sessions\<close>

text \<open>
  A matcher that returns a given list of opcodes, and the words and events of the
  examples. In scenario B of the specification the reference is \<open>the quick brown fox\<close> and
  the engine recognizes \<open>the brown fox\<close> in one segment; the matcher's opcodes for these two
  sequences are \<open>equal\<close>, \<open>delete\<close>, \<open>equal\<close>.
\<close>

definition fixed_opcodes :: "opcode list \<Rightarrow> string list \<Rightarrow> string list \<Rightarrow> opcode list" where
  "fixed_opcodes ops reference_words hyp = ops"

definition example_word :: "string \<Rightarrow> nat \<Rightarrow> nat \<Rightarrow> rat \<Rightarrow> word" where
  "example_word t off dur acc =
     \<lparr>Word = t, Offset = off, Duration = dur, AccuracyScore = Some acc, ErrorType = ''None''\<rparr>"

definition example_event :: "string \<Rightarrow> word list \<Rightarrow> rat \<Rightarrow> rat \<Rightarrow> event" where
  "example_event st ws flu pro =
     \<lparr>reason = RecognizedSpeech, RecognitionStatus = st, Words = ws,
      FluencyScore = flu, ProsodyScore = pro\<rparr>"


definition scenario_B_words :: "word list" where
  "scenario_B_words =
     [example_word ''The'' 5 10 100, example_word ''brown'' 25 10 100,
      example_word ''fox'' 35 10 100]"


definition scenario_B_result :: result where
  "scenario_B_result =
     \<lparr>Scores = \<lparr>Scores_AccuracyScore = Fin 75, Scores_CompletenessScore = Fin 75,
                Scores_FluencyScore = Fin 90, Scores_PronScore = Some (Fin 79),
                Scores_ProsodyScore = Fin 80\<rparr>,
      Result_Words = scenario_B_words,
      Error = None\<rparr>"

text \<open>A session in which one word is recognized, and recognized well.\<close>

definition one_word_events :: "event list" where
  "one_word_events = [example_event ''Success'' [example_word ''hello'' 5 10 100] 100 100]"

definition one_word_result :: result where
  "one_word_result =
     \<lparr>Scores = \<lparr>Scores_AccuracyScore = Fin 100, Scores_CompletenessScore = Fin 100,
                Scores_FluencyScore = Fin 100, Scores_PronScore = Some (Fin 100),
                Scores_ProsodyScore = Fin 100\<rparr>,
      Result_Words = [example_word ''hello'' 5 10 100],
      Error = None\<rparr>"

text \<open>
  Scenario C of the specification: the engine recognizes \<open>the quick very brown fox\<close>; the
  matcher's opcodes are \<open>equal\<close>, \<open>insert\<close>, \<open>equal\<close>.
\<close>

definition scenario_C_words :: "word list" where
  "scenario_C_words =
     [example_word ''The'' 5 10 100, example_word ''quick'' 15 10 90,
      example_word ''very'' 25 10 50, example_word ''brown'' 35 10 80,
      example_word ''fox'' 45 10 70]"

definition scenario_C_events :: "event list" where
  "scenario_C_events = [example_event ''Success'' scenario_C_words 90 80]"

definition scenario_C_opcodes :: "opcode list" where
  "scenario_C_opcodes = [(Equal, 0, 2, 0, 2), (Insert, 2, 2, 2, 3), (Equal, 2, 4, 3, 5)]"

definition scenario_C_heap :: "word list" where
  "scenario_C_heap = scenario_C_words[2 := (example_word ''very'' 25 10 50)\<lparr>ErrorType := ''Insertion''\<rparr>]"

definition scenario_C_result :: result where
  "scenario_C_result =
     \<lparr>Scores = \<lparr>Scores_AccuracyScore = Fin 85, Scores_CompletenessScore = Fin 100,
                Scores_FluencyScore = Fin 90, Scores_PronScore = Some (Fin 87),
                Scores_ProsodyScore = Fin 80\<rparr>,
      Result_Words = scenario_C_heap,
      Error = None\<rparr>"

text \<open>A segment with one word whose status is not \<open>Success\<close>.\<close>

definition unsuccessful_events :: "event list" where
  "unsuccessful_events = [example_event ''NoMatch'' [example_word ''hello'' 5 10 100] 100 100]"




text \<open>A session of two segments whose prosody scores are 80 and 85.\<close>

definition two_segment_events :: "event list" where
  "two_segment_events =
     [example_event ''Success'' [example_word ''hello'' 5 10 100] 90 80,
      example_event ''Success'' [example_word ''world'' 25 10 100] 90 85]"

definition two_segment_result :: result where
  "two_segment_result =
     \<lparr>Scores = \<lparr>Scores_AccuracyScore = Fin 100, Scores_CompletenessScore = Fin 100,
                Scores_FluencyScore = Fin 90, Scores_PronScore = Some (Fin 91),
                Scores_ProsodyScore = Fin (165 / 2)\<rparr>,
      Result_Words = [example_word ''hello'' 5 10 100, example_word ''world'' 25 10 100],
      Error = None\<rparr>"

text \<open>
  A session whose reference text is a single exclamation mark, which normalises to no
  token at all, and in which two words are recognized; the matcher's only opcode is an
  \<open>insert\<close>. Without any segment the recognized tokens are one empty string, and the
  opcode is an \<open>insert\<close> as well.
\<close>

definition no_token_events :: "event list" where
  "no_token_events =
     [example_event ''Success''
        [example_word ''hello'' 5 10 100, example_word ''world'' 15 10 100] 90 80]"

definition no_token_heap :: "word list" where
  "no_token_heap =
     [(example_word ''hello'' 5 10 100)\<lparr>ErrorType := ''Insertion''\<rparr>,
      (example_word ''world'' 15 10 100)\<lparr>ErrorType := ''Insertion''\<rparr>]"

definition no_token_result :: result where
  "no_token_result =
     \<lparr>Scores = \<lparr>Scores_AccuracyScore = NaN, Scores_CompletenessScore = NaN,
                Scores_FluencyScore = Fin 90, Scores_PronScore = Some NaN,
                Scores_ProsodyScore = Fin 80\<rparr>,
      Result_Words = no_token_heap,
      Error = None\<rparr>"

definition no_segment_result :: result where
  "no_segment_result =
     \<lparr>Scores = \<lparr>Scores_AccuracyScore = NaN, Scores_CompletenessScore = NaN,
                Scores_FluencyScore = Fin 0, Scores_PronScore = Some NaN,
                Scores_ProsodyScore = NaN\<rparr>,
      Result_Words = [],
      Error = None\<rparr>"




section \<open>Arithmetic, sorting and the handlers: auxiliary facts\<close>

lemma foldl_js_add_Fin: "foldl js_add (Fin a) (map Fin ys) = Fin (a + sum_list ys)"
  by (induction ys arbitrary: a) (simp_all add: add.assoc)

lemma lodash_sum_Fin: "lodash_sum (map Fin xs) = Fin (sum_list xs)"
  by (cases xs) (simp_all add: lodash_sum_def foldl_js_add_Fin)

lemma round_half_away_nonneg: "0 \<le> x \<Longrightarrow> round_half_away x = round x"
  by (simp add: round_half_away_def round_def)







lemma recognized_all_snoc:
  "recognized_all s (es @ [e]) = snd (recognized (recognized_all s es) e)"
  by (simp add: recognized_all_def)

lemma recognized_all_Nil: "recognized_all s [] = s"
  by (simp add: recognized_all_def)

lemma recognized_frame:
  "scoreNumber (snd (recognized s e)) = scoreNumber s"
  "referenceText (snd (recognized s e)) = referenceText s"
  by (simp_all add: recognized_def Let_def split: list.splits)

lemma recognized_all_frame:
  "scoreNumber (recognized_all s es) = scoreNumber s"
  "referenceText (recognized_all s es) = referenceText s"
  by (induction es rule: rev_induct) (simp_all add: recognized_all_Nil recognized_all_snoc recognized_frame)

lemma calculate_Inr:
  assumes "calculateOverallPronunciationScore g s = Inr s'"
  obtains h lw where
    "classify (wholelyricsArryRes (referenceText s)) (jo_RecognitionStatus s) (allWords s)
       (heap s, []) (g (wholelyricsArryRes (referenceText s)) (resTextArray (currentText s)))
       = Inr (h, lw)"
    "s' = s\<lparr>heap := h, scoreNumber := scoreNumber s'\<rparr>"
    "compScore (scoreNumber s') =
       (let comp = toFixed0
                     (js_mul
                       (js_div
                         (Fin (of_nat (length (filter (\<lambda>a. ErrorType (h ! a) = ''None'')
                                                 (recognizedWords s)))))
                         (Fin (of_nat (length (wholelyricsArryRes (referenceText s))))))
                       (Fin 100))
        in if js_gt comp (Fin 100) then Fin 100 else comp)"
    "accuracyScore (scoreNumber s') =
       toFixed0 (js_div (lodash_sum (accuracyScores h lw []))
                        (Fin (of_nat (length (accuracyScores h lw [])))))"
    "fluencyScore (scoreNumber s') =
       (if startOffset s \<noteq> 0
        then js_div (lodash_sum (sumRes (durations s) 0 (fluencyScores s)))
                    (lodash_sum (map (\<lambda>d. Fin (of_nat d)) (durations s)))
        else fluencyScore (scoreNumber s))"
    "prosodyScore (scoreNumber s') =
       js_div (lodash_sum (map Fin (prosodyScores s))) (Fin (of_nat (length (prosodyScores s))))"
    "pronScore (scoreNumber s') =
       Some (pronScore_of (jo_RecognitionStatus s)
              ((scoreNumber s')\<lparr>pronScore := pronScore (scoreNumber s)\<rparr>))"
  using assms
  unfolding calculateOverallPronunciationScore_def Let_def
  by (auto split: sum.splits prod.splits if_splits)





lemma sessionStopped_Inr:
  assumes "sessionStopped g s = Inr r"
  obtains s' where "calculateOverallPronunciationScore g s = Inr s'"
    "Scores_AccuracyScore (Scores r) = accuracyScore (scoreNumber s')"
    "Scores_CompletenessScore (Scores r) = compScore (scoreNumber s')"
    "Scores_FluencyScore (Scores r) = fluencyScore (scoreNumber s')"
    "Scores_PronScore (Scores r) = pronScore (scoreNumber s')"
    "Scores_ProsodyScore (Scores r) = prosodyScore (scoreNumber s')"
    "Result_Words r = map (\<lambda>a. heap s' ! a) (allWords s')"
    "Error r = recoginzedError s'"
  using assms unfolding sessionStopped_def by (auto split: sum.splits)

lemma round_half_away_of_int: "round_half_away (of_int n) = n"
proof -
  have "\<lfloor>(of_int n :: rat) + 1 / 2\<rfloor> = n" by (rule floor_unique) simp_all
  moreover have "\<lfloor>- (of_int n :: rat) + 1 / 2\<rfloor> = - n"
    by (rule floor_unique) simp_all
  ultimately show ?thesis by (simp add: round_half_away_def)
qed



section \<open>Splitting, joining and trimming: auxiliary facts\<close>

lemma split_space_nonempty: "split_space s \<noteq> []"
  by (induction s) (auto split: list.splits)

lemma join_space_Cons_Cons: "join_space ((c # p) # ps) = c # join_space (p # ps)"
  by (cases ps) simp_all

lemma join_space_Nil_Cons: "ps \<noteq> [] \<Longrightarrow> join_space ([] # ps) = CHR '' '' # join_space ps"
  by (cases ps) simp_all

lemma join_split_space: "join_space (split_space s) = s"
proof (induction s)
  case Nil
  then show ?case by simp
next
  case (Cons c cs)
  show ?case
  proof (cases "c = CHR '' ''")
    case True
    with Cons show ?thesis
      by (simp add: join_space_Nil_Cons split_space_nonempty)
  next
    case False
    obtain p ps where "split_space cs = p # ps"
      using split_space_nonempty[of cs] by (cases "split_space cs") auto
    with False Cons show ?thesis
      by (simp add: join_space_Cons_Cons)
  qed
qed

lemma split_space_pieces:
  "p \<in> set (split_space s) \<Longrightarrow> set p \<subseteq> set s - {CHR '' ''}"
proof (induction s arbitrary: p)
  case Nil
  then show ?case by simp
next
  case (Cons c cs)
  show ?case
  proof (cases "c = CHR '' ''")
    case True
    with Cons show ?thesis by auto
  next
    case False
    obtain q qs where q: "split_space cs = q # qs"
      using split_space_nonempty[of cs] by (cases "split_space cs") auto
    with False Cons.prems have "p = c # q \<or> p \<in> set qs" by simp
    then show ?thesis
    proof
      assume "p = c # q"
      moreover have "set q \<subseteq> set cs - {CHR '' ''}"
        using Cons.IH[of q] q by simp
      ultimately show ?thesis using False by auto
    next
      assume "p \<in> set qs"
      then have "set p \<subseteq> set cs - {CHR '' ''}"
        using Cons.IH[of p] q by simp
      then show ?thesis by auto
    qed
  qed
qed

lemma trim_no_whitespace:
  assumes "\<forall>c \<in> set s. \<not> is_whitespace c"
  shows "trim s = s"
proof -
  have d: "dropWhile is_whitespace xs = xs" if "\<forall>c \<in> set xs. \<not> is_whitespace c" for xs
    using that by (cases xs) simp_all
  from assms have "dropWhile is_whitespace s = s" by (rule d)
  moreover from assms have "dropWhile is_whitespace (rev s) = rev s"
    by (intro d) simp
  ultimately show ?thesis by (simp add: trim_def)
qed

lemma trim_idem: "trim (trim s) = trim s"
proof -
  let ?d = "dropWhile is_whitespace"
  let ?z = "rev (?d (rev (?d s)))"
  have left: "?d ?z = ?z"
  proof (cases "?z = []")
    case True
    show ?thesis unfolding True by simp
  next
    case False
    then have ne: "?d (rev (?d s)) \<noteq> []" by simp
    have y: "?d s \<noteq> []"
    proof
      assume "?d s = []"
      then have "?d (rev (?d s)) = []" by (simp only: rev.simps dropWhile.simps)
      with ne show False by contradiction
    qed
    have "hd ?z = last (?d (rev (?d s)))"
      using ne by (simp add: hd_rev)
    also have "\<dots> = last (rev (?d s))"
      using last_appendR[OF ne, of "takeWhile is_whitespace (rev (?d s))"]
      by (simp only: takeWhile_dropWhile_id)
    also have "\<dots> = hd (?d s)"
      using y by (simp add: last_rev)
    finally have "hd ?z = hd (?d s)" .
    moreover have "\<not> is_whitespace (hd (?d s))"
      using y by (rule hd_dropWhile)
    ultimately show ?thesis
      using False by (simp add: dropWhile_eq_self_iff)
  qed
  have "trim (trim s) = rev (?d (rev (?d ?z)))"
    by (simp add: trim_def)
  also have "\<dots> = rev (?d (?d (rev (?d s))))"
    by (simp add: left)
  also have "\<dots> = ?z" by simp
  finally show ?thesis by (simp add: trim_def)
qed

lemma toLowerCase_char_whitespace:
  "is_whitespace (toLowerCase_char c) \<Longrightarrow> is_whitespace c"
proof -
  have "of_char (char_of (of_char c + 32 :: nat)) = (of_char c + 32 :: nat)"
    if "(of_char c :: nat) \<le> 222"
    using that by (simp add: of_char_of)
  then show "is_whitespace (toLowerCase_char c) \<Longrightarrow> is_whitespace c"
    by (auto simp: toLowerCase_char_def is_whitespace_def Let_def split: if_splits)
qed


section \<open>The classifier: auxiliary facts\<close>

lemma retagged_refl: "retagged h h"
  by (simp add: retagged_def)

lemma retagged_trans:
  assumes "retagged h1 h2" and "retagged h2 h3"
  shows "retagged h1 h3"
proof -
  have len: "length h2 = length h1" "length h3 = length h2"
    using assms by (simp_all add: retagged_def)
  have "h3 ! a = h1 ! a \<or> h3 ! a = (h1 ! a)\<lparr>ErrorType := ''Insertion''\<rparr>"
    if a: "a < length h1" for a
  proof -
    from a assms(1) have 1: "h2 ! a = h1 ! a \<or> h2 ! a = (h1 ! a)\<lparr>ErrorType := ''Insertion''\<rparr>"
      by (simp add: retagged_def)
    from a len assms(2)
    have 2: "h3 ! a = h2 ! a \<or> h3 ! a = (h2 ! a)\<lparr>ErrorType := ''Insertion''\<rparr>"
      by (simp add: retagged_def)
    from 1 2 show ?thesis by auto
  qed
  with len show ?thesis by (simp add: retagged_def)
qed

lemma retagged_update:
  "retagged h (h[a := (h ! a)\<lparr>ErrorType := ''Insertion''\<rparr>])"
proof -
  have "h[a := (h ! a)\<lparr>ErrorType := ''Insertion''\<rparr>] ! b = h ! b
        \<or> h[a := (h ! a)\<lparr>ErrorType := ''Insertion''\<rparr>] ! b
            = (h ! b)\<lparr>ErrorType := ''Insertion''\<rparr>" if "b < length h" for b
    using that by (cases "b = a") simp_all
  then show ?thesis by (simp add: retagged_def)
qed

lemma retagged_nth:
  "retagged h h' \<Longrightarrow> a < length h
     \<Longrightarrow> h' ! a = h ! a \<or> h' ! a = (h ! a)\<lparr>ErrorType := ''Insertion''\<rparr>"
  by (simp add: retagged_def)

lemma retagged_length: "retagged h h' \<Longrightarrow> length h' = length h"
  by (simp add: retagged_def)

lemma retagged_Insertion:
  "retagged h h' \<Longrightarrow> a < length h \<Longrightarrow> ErrorType (h ! a) = ''Insertion''
     \<Longrightarrow> ErrorType (h' ! a) = ''Insertion''"
  using retagged_nth[of h h' a] by auto

lemma retagged_AccuracyScore:
  "retagged h h' \<Longrightarrow> a < length h \<Longrightarrow> AccuracyScore (h' ! a) = AccuracyScore (h ! a)"
  using retagged_nth[of h h' a] by auto

lemma retagged_None:
  "retagged h h' \<Longrightarrow> a < length h \<Longrightarrow> ErrorType (h' ! a) = ''None''
     \<Longrightarrow> ErrorType (h ! a) = ''None''"
  using retagged_nth[of h h' a] by auto

lemma insertion_loop_empty:
  "insertion_loop [] js (h, lw) = Inr (h, lw @ map (allWords_at []) js)"
  by (induction js arbitrary: lw) simp_all

lemma insertion_loop_Inr:
  assumes "insertion_loop aw js (h, lw) = Inr (h', lw')"
  shows "lw' = lw @ map (allWords_at aw) js \<and> retagged h h'
         \<and> (aw \<noteq> [] \<longrightarrow> (\<forall>j \<in> set js. j < length aw))
         \<and> ((\<forall>a \<in> set aw. a < length h)
              \<longrightarrow> (\<forall>j \<in> set js. j < length aw \<longrightarrow> ErrorType (h' ! (aw ! j)) = ''Insertion''))"
  using assms
proof (induction js arbitrary: h lw)
  case Nil
  then show ?case by (simp add: retagged_refl)
next
  case (Cons j js)
  show ?case
  proof (cases "aw = []")
    case True
    with Cons.prems show ?thesis
      by (simp add: insertion_loop_empty retagged_refl)
  next
    case False
    with Cons.prems obtain a where a: "at_index aw j = Some a"
      by (auto split: option.splits)
    then have j: "j < length aw" "aw ! j = a"
      by (auto simp: at_index_def split: if_splits)
    let ?h1 = "if ErrorType (h ! a) \<noteq> ''Insertion''
               then h[a := (h ! a)\<lparr>ErrorType := ''Insertion''\<rparr>] else h"
    from Cons.prems False a
    have rest: "insertion_loop aw js (?h1, lw @ [Recognized a]) = Inr (h', lw')"
      by simp
    note ih = Cons.IH[OF rest]
    have r1: "retagged h ?h1"
      by (simp add: retagged_update retagged_refl)
    have len1: "length ?h1 = length h" by simp
    have tag1: "a < length h \<Longrightarrow> ErrorType (?h1 ! a) = ''Insertion''"
      by simp
    have lw: "lw' = lw @ map (allWords_at aw) (j # js)"
      using ih a by (simp add: allWords_at_def)
    have rt: "retagged h h'"
      using ih by (intro retagged_trans[OF r1]) simp
    have inr: "aw \<noteq> [] \<longrightarrow> (\<forall>j \<in> set (j # js). j < length aw)"
      using ih j by simp
    have tags: "(\<forall>a \<in> set aw. a < length h)
              \<longrightarrow> (\<forall>i \<in> set (j # js). i < length aw \<longrightarrow> ErrorType (h' ! (aw ! i)) = ''Insertion'')"
    proof (intro impI ballI)
      fix i
      assume wf: "\<forall>a \<in> set aw. a < length h" and i: "i \<in> set (j # js)" "i < length aw"
      from wf j have "a < length h" by auto
      with tag1 have "ErrorType (?h1 ! a) = ''Insertion''" by blast
      moreover from ih have "retagged ?h1 h'" by simp
      ultimately have "ErrorType (h' ! a) = ''Insertion''"
        using \<open>a < length h\<close> len1 by (intro retagged_Insertion[of ?h1 h' a]) simp_all
      moreover have "i \<in> set js \<Longrightarrow> ErrorType (h' ! (aw ! i)) = ''Insertion''"
        using ih wf i(2) len1 by simp
      ultimately show "ErrorType (h' ! (aw ! i)) = ''Insertion''"
        using i j by auto
    qed
    from lw rt inr tags show ?thesis by (intro conjI)
  qed
qed


lemma classify_opcode_Inr:
  assumes "classify_opcode ref st aw (h, lw) (t, i1, i2, j1, j2) = Inr (h', lw')"
  shows "retagged h h'"
    and "lw' = lw
           @ (if t = Insert \<or> t = Replace then map (allWords_at aw) [j1..<j2] else [])
           @ (if (t = Delete \<or> t = Replace) \<and> \<not> (i2 = length ref \<and> \<not> is_terminal st)
              then map (\<lambda>i. Synthesized (at_index ref i) ''Omission'') [i1..<i2] else [])
           @ (if t = Equal then map (allWords_at aw) [j1..<j2] else [])"
    and "t = Insert \<or> t = Replace \<Longrightarrow> \<forall>a \<in> set aw. a < length h \<Longrightarrow> j1 \<le> j \<Longrightarrow> j < j2
           \<Longrightarrow> j < length aw \<Longrightarrow> ErrorType (h' ! (aw ! j)) = ''Insertion''"
proof -
  show "retagged h h'"
    using assms insertion_loop_Inr[of aw "[j1..<j2]" h lw]
    by (cases t) (auto simp: omission_loop_def equal_loop_def retagged_refl
                       split: sum.splits if_splits)
  show "lw' = lw
           @ (if t = Insert \<or> t = Replace then map (allWords_at aw) [j1..<j2] else [])
           @ (if (t = Delete \<or> t = Replace) \<and> \<not> (i2 = length ref \<and> \<not> is_terminal st)
              then map (\<lambda>i. Synthesized (at_index ref i) ''Omission'') [i1..<i2] else [])
           @ (if t = Equal then map (allWords_at aw) [j1..<j2] else [])"
    using assms insertion_loop_Inr[of aw "[j1..<j2]" h lw]
    by (cases t) (auto simp: omission_loop_def equal_loop_def split: sum.splits if_splits)
  show "ErrorType (h' ! (aw ! j)) = ''Insertion''"
    if "t = Insert \<or> t = Replace" "\<forall>a \<in> set aw. a < length h" "j1 \<le> j" "j < j2" "j < length aw"
    using that assms insertion_loop_Inr[of aw "[j1..<j2]" h lw]
    by (cases t) (auto simp: omission_loop_def split: sum.splits if_splits)
qed


lemma classify_append:
  "classify ref st aw c (xs @ ys) =
     (case classify ref st aw c xs of Inl err \<Rightarrow> Inl err | Inr c1 \<Rightarrow> classify ref st aw c1 ys)"
  by (induction xs arbitrary: c) (simp_all split: sum.splits)

lemma allWords_at_cases:
  "allWords_at aw j = Undefined \<or> (j < length aw \<and> allWords_at aw j = Recognized (aw ! j))"
  by (simp add: allWords_at_def at_index_def)

lemma classify_Inr:
  assumes "classify ref st aw (h, lw) ops = Inr (h', lw')"
  shows "retagged h h'"
    and "\<exists>rest. lw' = lw @ rest"
    and "\<forall>x \<in> set lw'. x \<in> set lw \<or> x = Undefined
           \<or> (\<exists>j < length aw. x = Recognized (aw ! j)) \<or> (\<exists>w. x = Synthesized w ''Omission'')"
  using assms
proof (induction ops arbitrary: h lw)
  case Nil
  {
    case 1 then show ?case by (simp add: retagged_refl)
  next
    case 2 then show ?case by simp
  next
    case 3 then show ?case by simp
  }
next
  case (Cons d ops)
  obtain t i1 i2 j1 j2 where d: "d = (t, i1, i2, j1, j2)"
    by (cases d) auto
  {
    case 1
    then obtain h1 lw1 where 1: "classify_opcode ref st aw (h, lw) d = Inr (h1, lw1)"
      and 2: "classify ref st aw (h1, lw1) ops = Inr (h', lw')"
      by (auto split: sum.splits)
    from classify_opcode_Inr(1)[OF 1[unfolded d]] Cons.IH(1)[OF 2] show ?case
      by (rule retagged_trans)
  next
    case 2
    then obtain h1 lw1 where 1: "classify_opcode ref st aw (h, lw) d = Inr (h1, lw1)"
      and 2: "classify ref st aw (h1, lw1) ops = Inr (h', lw')"
      by (auto split: sum.splits)
    from classify_opcode_Inr(2)[OF 1[unfolded d]] Cons.IH(2)[OF 2] show ?case
      by auto
  next
    case 3
    then obtain h1 lw1 where 1: "classify_opcode ref st aw (h, lw) d = Inr (h1, lw1)"
      and 2: "classify ref st aw (h1, lw1) ops = Inr (h', lw')"
      by (auto split: sum.splits)
    have step: "\<forall>x \<in> set lw1. x \<in> set lw \<or> x = Undefined
           \<or> (\<exists>j < length aw. x = Recognized (aw ! j)) \<or> (\<exists>w. x = Synthesized w ''Omission'')"
      using classify_opcode_Inr(2)[OF 1[unfolded d]] allWords_at_cases[of aw]
      by (auto split: if_splits)
    from Cons.IH(3)[OF 2] step show ?case
      by blast
  }
qed

lemma classify_marks:
  assumes "classify ref st aw (h, lw) ops = Inr (h', lw')"
    and "(t, i1, i2, j1, j2) \<in> set ops" and "t = Insert \<or> t = Replace"
    and "\<forall>a \<in> set aw. a < length h"
    and "j1 \<le> j" and "j < j2" and "j < length aw"
  shows "ErrorType (h' ! (aw ! j)) = ''Insertion'' \<and> Recognized (aw ! j) \<in> set lw'"
  using assms(1,2,4)
proof (induction ops arbitrary: h lw)
  case Nil
  then show ?case by simp
next
  case (Cons d ops)
  from Cons.prems(1) obtain h1 lw1 where 1: "classify_opcode ref st aw (h, lw) d = Inr (h1, lw1)"
    and 2: "classify ref st aw (h1, lw1) ops = Inr (h', lw')"
    by (auto split: sum.splits)
  obtain t' i1' i2' j1' j2' where d: "d = (t', i1', i2', j1', j2')"
    by (cases d) auto
  note step = classify_opcode_Inr[OF 1[unfolded d]]
  have len1: "length h1 = length h"
    using step(1) by (rule retagged_length)
  show ?case
  proof (cases "d = (t, i1, i2, j1, j2)")
    case True
    with d have eq: "t' = t" "i1' = i1" "i2' = i2" "j1' = j1" "j2' = j2" by simp_all
    from step(3)[of j] assms(3,5,6,7) Cons.prems(3) eq
    have tag: "ErrorType (h1 ! (aw ! j)) = ''Insertion''" by simp
    have a: "aw ! j < length h1"
      using Cons.prems(3) assms(7) len1 by simp
    from classify_Inr(1)[OF 2] a tag have "ErrorType (h' ! (aw ! j)) = ''Insertion''"
      by (rule retagged_Insertion)
    moreover have "Recognized (aw ! j) \<in> set lw1"
      using step(2) eq assms(3,5,6,7) by (auto simp: allWords_at_def at_index_def)
    moreover from classify_Inr(2)[OF 2] have "set lw1 \<subseteq> set lw'" by auto
    ultimately show ?thesis by blast
  next
    case False
    with Cons.prems(2) have "(t, i1, i2, j1, j2) \<in> set ops" by simp
    from Cons.IH[OF 2 this] Cons.prems(3) len1 show ?thesis by simp
  qed
qed

lemma classify_no_words: "\<exists>lw'. classify ref st [] (h, lw) ops = Inr (h, lw')"
proof (induction ops arbitrary: lw)
  case Nil
  then show ?case by simp
next
  case (Cons d ops)
  obtain t i1 i2 j1 j2 where d: "d = (t, i1, i2, j1, j2)"
    by (cases d) auto
  have "\<exists>lw1. classify_opcode ref st [] (h, lw) d = Inr (h, lw1)"
    unfolding d by (simp add: insertion_loop_empty omission_loop_def equal_loop_def)
  then obtain lw1 where "classify_opcode ref st [] (h, lw) d = Inr (h, lw1)" ..
  with Cons[of lw1] show ?case by auto
qed


section \<open>The accumulated session: auxiliary facts\<close>

lemma accuracyScores_acc:
  "accuracyScores h ws acc = acc @ List.map_filter (accuracy_entry h) ws"
  by (induction ws arbitrary: acc) (simp_all add: List.map_filter_simps split: option.splits)

lemma map_nth_append_upt:
  "map (\<lambda>a. (h @ ws) ! a) [length h..<length h + length ws] = ws"
  by (rule nth_equalityI) (simp_all add: nth_append)

lemma map_nth_append_old:
  "\<forall>a \<in> set as. a < length h \<Longrightarrow> map (\<lambda>a. (h @ ws) ! a) as = map (\<lambda>a. h ! a) as"
  by (simp add: nth_append)

lemma recognized_no_words:
  "Words e = [] \<Longrightarrow>
     snd (recognized s e) =
       s\<lparr>recoginzedError := (if reason e \<noteq> RecognizedSpeech then Some RecognizedSpeech
                              else recoginzedError s),
         jo_RecognitionStatus := Some (RecognitionStatus e)\<rparr>"
  by (simp add: recognized_def)

lemma recognized_words:
  assumes "Words e \<noteq> []"
  shows "heap (snd (recognized s e)) = heap s @ Words e"
    and "recognizedWords (snd (recognized s e)) =
           recognizedWords s @ [length (heap s)..<length (heap s) + length (Words e)]"
    and "allWords (snd (recognized s e)) =
           (if RecognitionStatus e = ''Success''
            then allWords s @ [length (heap s)..<length (heap s) + length (Words e)]
            else allWords s)"
    and "currentText (snd (recognized s e)) =
           currentText s @ map (\<lambda>item. toLowerCase (Word item)) (Words e)"
    and "fluencyScores (snd (recognized s e)) = fluencyScores s @ [FluencyScore e]"
    and "prosodyScores (snd (recognized s e)) = prosodyScores s @ [ProsodyScore e]"
    and "durations (snd (recognized s e)) = durations s @ [sum_list (map Duration (Words e))]"
    and "startOffset (snd (recognized s e)) = Offset (hd (Words e))"
  using assms by (simp_all add: recognized_def Let_def split: list.splits)

lemma recognized_all_heap:
  "heap (recognized_all (continueRecognize text) es) = concat (map Words es)"
proof (induction es rule: rev_induct)
  case Nil
  then show ?case by (simp add: recognized_all_Nil continueRecognize_def)
next
  case (snoc e es)
  then show ?case
    by (cases "Words e = []")
       (simp_all add: recognized_all_snoc recognized_no_words recognized_words)
qed

lemma recognized_all_recognizedWords:
  "recognizedWords (recognized_all (continueRecognize text) es)
     = [0..<length (heap (recognized_all (continueRecognize text) es))]"
proof (induction es rule: rev_induct)
  case Nil
  then show ?case by (simp add: recognized_all_Nil continueRecognize_def)
next
  case (snoc e es)
  have "[0..<n] @ [n..<n + k] = [0..<n + k]" for n k :: nat
    using upt_add_eq_append[of 0 n k] by simp
  with snoc show ?case
    by (cases "Words e = []")
       (simp_all add: recognized_all_snoc recognized_no_words recognized_words)
qed

lemma recognized_all_allWords:
  "(\<forall>a \<in> set (allWords (recognized_all (continueRecognize text) es)).
        a < length (heap (recognized_all (continueRecognize text) es)))
   \<and> map (\<lambda>a. heap (recognized_all (continueRecognize text) es) ! a)
         (allWords (recognized_all (continueRecognize text) es))
       = concat (map Words (filter (\<lambda>e. RecognitionStatus e = ''Success'') es))"
proof (induction es rule: rev_induct)
  case Nil
  then show ?case by (simp add: recognized_all_Nil continueRecognize_def)
next
  case (snoc e es)
  show ?case
  proof (cases "Words e = []")
    case True
    with snoc show ?thesis
      by (simp add: recognized_all_snoc recognized_no_words)
  next
    case False
    let ?s = "recognized_all (continueRecognize text) es"
    from snoc have old: "\<forall>a \<in> set (allWords ?s). a < length (heap ?s)"
      and ih: "map (\<lambda>a. heap ?s ! a) (allWords ?s)
                 = concat (map Words (filter (\<lambda>e. RecognitionStatus e = ''Success'') es))"
      by simp_all
    from old have keep: "map (\<lambda>a. (heap ?s @ Words e) ! a) (allWords ?s)
                           = map (\<lambda>a. heap ?s ! a) (allWords ?s)"
      by (rule map_nth_append_old)
    show ?thesis
      using False old
      by (auto simp: recognized_all_snoc recognized_words keep ih map_nth_append_upt)
  qed
qed

lemma recognized_all_currentText:
  "currentText (recognized_all (continueRecognize text) es)
     = concat (map (\<lambda>e. map (\<lambda>item. toLowerCase (Word item)) (Words e)) es)"
proof (induction es rule: rev_induct)
  case Nil
  then show ?case by (simp add: recognized_all_Nil continueRecognize_def)
next
  case (snoc e es)
  then show ?case
    by (cases "Words e = []")
       (simp_all add: recognized_all_snoc recognized_no_words recognized_words)
qed

lemma recognized_all_lists:
  "fluencyScores (recognized_all (continueRecognize text) es)
     = map FluencyScore (filter (\<lambda>e. Words e \<noteq> []) es)
   \<and> prosodyScores (recognized_all (continueRecognize text) es)
     = map ProsodyScore (filter (\<lambda>e. Words e \<noteq> []) es)
   \<and> durations (recognized_all (continueRecognize text) es)
     = map (\<lambda>e. sum_list (map Duration (Words e))) (filter (\<lambda>e. Words e \<noteq> []) es)
   \<and> startOffset (recognized_all (continueRecognize text) es)
     = (if filter (\<lambda>e. Words e \<noteq> []) es = [] then 0
        else Offset (hd (Words (last (filter (\<lambda>e. Words e \<noteq> []) es)))))"
proof (induction es rule: rev_induct)
  case Nil
  then show ?case by (simp add: recognized_all_Nil continueRecognize_def)
next
  case (snoc e es)
  then show ?case
    by (cases "Words e = []")
       (simp_all add: recognized_all_snoc recognized_no_words recognized_words)
qed

lemma length_filter_nth:
  "length (filter (\<lambda>a. P (h ! a)) [0..<length h]) = length (filter P h)"
proof -
  have "filter P h = filter P (map (\<lambda>a. h ! a) [0..<length h])"
    by (simp add: map_nth)
  also have "\<dots> = map (\<lambda>a. h ! a) (filter (\<lambda>a. P (h ! a)) [0..<length h])"
    by (simp add: filter_map comp_def)
  finally show ?thesis by simp
qed

lemma completeness_value:
  assumes "0 < m"
  shows "(let comp = toFixed0 (js_mul (js_div (Fin (of_nat n)) (Fin (of_nat m))) (Fin 100))
          in if js_gt comp (Fin 100) then Fin 100 else comp)
         = Fin (of_int (min 100 (round (100 * of_nat n / of_nat m :: rat))))"
proof -
  let ?q = "of_nat n / of_nat m * 100 :: rat"
  have nonneg: "0 \<le> ?q" by simp
  have q: "?q = 100 * of_nat n / of_nat m" by simp
  from assms have "toFixed0 (js_mul (js_div (Fin (of_nat n)) (Fin (of_nat m))) (Fin 100))
                     = Fin (of_int (round ?q))"
    by (simp add: round_half_away_nonneg)
  moreover have "(if js_gt (Fin (of_int (round ?q))) (Fin 100) then Fin 100
                  else Fin (of_int (round ?q)))
                 = Fin (of_int (min 100 (round ?q)))"
    by (simp add: min_def not_less)
  ultimately show ?thesis unfolding q by (simp add: Let_def)
qed

lemma sumRes_map:
  "sumRes (pre @ map d es) (length pre) (map f es) = map (\<lambda>e. Fin (f e * of_nat (d e))) es"
proof (induction es arbitrary: pre)
  case Nil
  then show ?case by simp
next
  case (Cons e es)
  from Cons[of "pre @ [d e]"] show ?case
    by (simp add: at_index_def nth_append)
qed

lemma sumRes_map0:
  "sumRes (map d es) 0 (map f es) = map (\<lambda>e. Fin (f e * of_nat (d e))) es"
  using sumRes_map[of "[]" d es f] by simp

lemma lodash_sum_nat:
  "lodash_sum (map (\<lambda>d. Fin (of_nat d)) ds) = Fin (of_nat (sum_list ds))"
proof -
  have "map (\<lambda>d. Fin (of_nat d)) ds = map Fin (map of_nat ds)" by simp
  moreover have "sum_list (map of_nat ds) = (of_nat (sum_list ds) :: rat)"
    by (induction ds) simp_all
  ultimately show ?thesis by (simp only: lodash_sum_Fin)
qed

lemma lodash_sum_map_Fin: "lodash_sum (map (\<lambda>e. Fin (g e)) es) = Fin (sum_list (map g es))"
  using lodash_sum_Fin[of "map g es"] by (simp add: comp_def)


section \<open>The range of the scores: auxiliary facts\<close>

lemma round_half_away_range:
  assumes "0 \<le> x" and "x \<le> 100"
  shows "0 \<le> round_half_away x \<and> round_half_away x \<le> 100"
proof -
  have "round_half_away x = round x"
    using assms(1) by (rule round_half_away_nonneg)
  moreover have "round (0 :: rat) \<le> round x"
    using assms(1) by (rule round_mono)
  moreover have "round x \<le> round (100 :: rat)"
    using assms(2) by (rule round_mono)
  ultimately show ?thesis by simp
qed

lemma whole_percent_toFixed0: "percent x \<Longrightarrow> whole_percent (toFixed0 x)"
  unfolding percent_def whole_percent_def
  using round_half_away_range by auto

lemma whole_percent_percent: "whole_percent x \<Longrightarrow> percent x"
  unfolding percent_def whole_percent_def by auto

lemma percent_quotient:
  assumes "0 < b" and "0 \<le> a" and "a \<le> 100 * b"
  shows "percent (js_div (Fin a) (Fin b))"
proof -
  from assms(1) have "js_div (Fin a) (Fin b) = Fin (a / b)" by simp
  moreover from assms have "0 \<le> a / b" by simp
  moreover from assms have "a / b \<le> 100" by (simp add: pos_divide_le_eq)
  ultimately show ?thesis by (simp add: percent_def)
qed

lemma percent_mean:
  assumes "\<forall>v \<in> set vs. 0 \<le> v \<and> v \<le> (100 :: rat)"
  shows "percent (js_div (Fin (sum_list vs)) (Fin (of_nat (length vs))))"
proof (cases "vs = []")
  case True
  then show ?thesis by (simp add: percent_def)
next
  case False
  then have n: "0 < length vs" by simp
  have lo: "0 \<le> sum_list vs"
    using assms by (simp add: sum_list_nonneg)
  have "sum_list (map (\<lambda>v. v) vs) \<le> sum_list (map (\<lambda>_. 100) vs)"
    using assms by (intro sum_list_mono) simp
  then have hi: "sum_list vs \<le> 100 * of_nat (length vs)"
    by (simp add: sum_list_triv)
  from n have "(0 :: rat) < of_nat (length vs)" by simp
  from this lo hi show ?thesis by (rule percent_quotient)
qed

lemma percent_weighted_mean:
  assumes "\<forall>e \<in> set es. 0 \<le> f e \<and> f e \<le> (100 :: rat)"
  shows "percent (js_div (Fin (sum_list (map (\<lambda>e. f e * of_nat (d e)) es)))
                         (Fin (of_nat (sum_list (map d es)))))"
proof (cases "sum_list (map d es) = 0")
  case True
  then have "\<forall>e \<in> set es. d e = 0" by (simp add: sum_list_eq_0_iff)
  then have "sum_list (map (\<lambda>e. f e * of_nat (d e)) es) = 0"
    by (induction es) simp_all
  with True show ?thesis by (simp add: percent_def)
next
  case False
  then have "0 < sum_list (map d es)" by (rule_tac gr0I) simp
  then have n: "(0 :: rat) < of_nat (sum_list (map d es))"
    by (simp only: of_nat_0_less_iff)
  have lo: "0 \<le> sum_list (map (\<lambda>e. f e * of_nat (d e)) es)"
    using assms by (intro sum_list_nonneg) auto
  have "sum_list (map (\<lambda>e. f e * of_nat (d e)) es)
          \<le> sum_list (map (\<lambda>e. 100 * of_nat (d e)) es)"
    using assms by (intro sum_list_mono) (simp add: mult_right_mono)
  also have "\<dots> = 100 * of_nat (sum_list (map d es))"
    by (induction es) (simp_all add: algebra_simps)
  finally have hi: "sum_list (map (\<lambda>e. f e * of_nat (d e)) es)
                      \<le> 100 * of_nat (sum_list (map d es))" .
  from n lo hi show ?thesis by (rule percent_quotient)
qed

lemma percent_terminal:
  assumes "percent a" "percent b" "percent c" "percent d"
  shows "whole_percent
           (toFixed0
             (js_add
               (js_add (js_add (js_mul a (Fin (4 / 10))) (js_mul b (Fin (2 / 10))))
                       (js_mul c (Fin (2 / 10))))
               (js_mul d (Fin (2 / 10)))))"
proof -
  have "percent
          (js_add
            (js_add (js_add (js_mul a (Fin (4 / 10))) (js_mul b (Fin (2 / 10))))
                    (js_mul c (Fin (2 / 10))))
            (js_mul d (Fin (2 / 10))))"
    using assms unfolding percent_def by (elim disjE exE conjE) simp_all
  then show ?thesis by (rule whole_percent_toFixed0)
qed

lemma percent_nonterminal:
  assumes "percent a" "percent b" "percent c"
  shows "whole_percent
           (toFixed0
             (js_add (js_add (js_mul a (Fin (6 / 10))) (js_mul b (Fin (2 / 10))))
                     (js_mul c (Fin (2 / 10)))))"
proof -
  have "percent
          (js_add (js_add (js_mul a (Fin (6 / 10))) (js_mul b (Fin (2 / 10))))
                  (js_mul c (Fin (2 / 10))))"
    using assms unfolding percent_def by (elim disjE exE conjE) simp_all
  then show ?thesis by (rule whole_percent_toFixed0)
qed


lemma sort_insert_props:
  "set (sort_insert sn a bs) = insert a (set bs) \<and> length (sort_insert sn a bs) = Suc (length bs)"
  by (induction bs) auto

lemma sortScore_props:
  "set (sortScore sn) = set (keys sn) \<and> length (sortScore sn) = length (keys sn)"
proof -
  have "set (foldr (sort_insert sn) ks []) = set ks
        \<and> length (foldr (sort_insert sn) ks []) = length ks" for ks
    by (induction ks) (simp_all add: sort_insert_props)
  then show ?thesis by (simp add: sortScore_def)
qed

lemma pronScore_of_percent:
  assumes "pronScore sn = None"
    and "percent (accuracyScore sn)" "percent (fluencyScore sn)"
    and "percent (compScore sn)" "percent (prosodyScore sn)"
  shows "whole_percent (pronScore_of st sn)"
proof (cases "st = Some ''Success'' \<or> st = Some ''Failed''")
  case True
  have ks: "keys sn = [K_accuracyScore, K_fluencyScore, K_compScore, K_prosodyScore]"
    using assms(1) by (simp add: keys_def)
  have all: "percent (get sn k)" if "k \<in> set (keys sn)" for k
    using that assms(2-) by (auto simp: ks)
  have "percent (get sn (sortScore sn ! i))" if "i < 4" for i
  proof -
    have "length (sortScore sn) = 4"
      using sortScore_props[of sn] by (simp add: ks)
    with that have "sortScore sn ! i \<in> set (sortScore sn)"
      by (intro nth_mem) simp
    then have "sortScore sn ! i \<in> set (keys sn)"
      using sortScore_props[of sn] by (simp only:)
    then show ?thesis by (rule all)
  qed
  then have "percent (get sn (sortScore sn ! 0))" "percent (get sn (sortScore sn ! 1))"
    "percent (get sn (sortScore sn ! 2))" "percent (get sn (sortScore sn ! 3))"
    by simp_all
  from percent_terminal[OF this] True show ?thesis
    by (simp add: pronScore_of_def)
next
  case False
  from percent_nonterminal[OF assms(2,3,5)] False show ?thesis
    by (simp add: pronScore_of_def)
qed

lemma accuracyScores_percent:
  assumes "\<forall>x \<in> set lw. \<forall>v. accuracy_entry h x = Some v
                \<longrightarrow> (\<exists>q. v = Fin q \<and> 0 \<le> q \<and> q \<le> 100)"
  shows "\<exists>vs. accuracyScores h lw [] = map Fin vs \<and> (\<forall>v \<in> set vs. 0 \<le> v \<and> v \<le> 100)"
  using assms
proof (induction lw)
  case Nil
  then show ?case by simp
next
  case (Cons x lw)
  then obtain vs where vs: "accuracyScores h lw [] = map Fin vs"
    "\<forall>v \<in> set vs. 0 \<le> v \<and> v \<le> 100"
    by auto
  show ?case
  proof (cases "accuracy_entry h x")
    case None
    with vs show ?thesis
      by (auto simp: accuracyScores_acc List.map_filter_simps)
  next
    case (Some v)
    with Cons.prems obtain q where "v = Fin q" "0 \<le> q" "q \<le> 100" by auto
    with Some vs have "accuracyScores h (x # lw) [] = map Fin (q # vs)"
      "\<forall>v \<in> set (q # vs). 0 \<le> v \<and> v \<le> 100"
      by (simp_all add: accuracyScores_acc List.map_filter_simps)
    then show ?thesis by blast
  qed
qed

lemma completeness_whole_percent:
  "whole_percent
     (let comp = toFixed0 (js_mul (js_div (Fin (of_nat n)) (Fin (of_nat m))) (Fin 100))
      in if js_gt comp (Fin 100) then Fin 100 else comp)"
proof (cases "m = 0")
  case True
  have "Fin 100 = Fin (of_int 100)" by simp
  then have "whole_percent (Fin 100)"
    unfolding whole_percent_def by (intro disjI2 exI[of _ 100]) simp
  with True show ?thesis
    by (cases "n = 0") (simp_all add: whole_percent_def)
next
  case False
  then have m: "0 < m" by simp
  let ?k = "min 100 (round (100 * of_nat n / of_nat m :: rat))"
  have "round (0 :: rat) \<le> round (100 * of_nat n / of_nat m :: rat)"
    by (rule round_mono) simp
  then have "0 \<le> ?k" "?k \<le> 100" by simp_all
  then have "whole_percent (Fin (of_int ?k))"
    unfolding whole_percent_def by blast
  then show ?thesis by (simp only: completeness_value[OF m])
qed


section \<open>The example sessions, evaluated\<close>


lemma one_word_stopped:
  "sessionStopped (fixed_opcodes [(Equal, 0, 1, 0, 1)])
     (recognized_all (continueRecognize ''hello'') one_word_events)
   = Inr one_word_result"
  by code_simp

lemma scenario_C_stopped:
  "sessionStopped (fixed_opcodes scenario_C_opcodes)
     (recognized_all (continueRecognize ''the quick brown fox'') scenario_C_events)
   = Inr scenario_C_result"
  by code_simp

lemma scenario_C_classified:
  "classify (wholelyricsArryRes ''the quick brown fox'')
     (jo_RecognitionStatus (recognized_all (continueRecognize ''the quick brown fox'') scenario_C_events))
     (allWords (recognized_all (continueRecognize ''the quick brown fox'') scenario_C_events))
     (heap (recognized_all (continueRecognize ''the quick brown fox'') scenario_C_events), [])
     (fixed_opcodes scenario_C_opcodes (wholelyricsArryRes ''the quick brown fox'')
        (resTextArray (currentText
           (recognized_all (continueRecognize ''the quick brown fox'') scenario_C_events))))
   = Inr (scenario_C_heap, [Recognized 0, Recognized 1, Recognized 2, Recognized 3, Recognized 4])"
  by code_simp

lemma scenario_C_allWords:
  "allWords (recognized_all (continueRecognize ''the quick brown fox'') scenario_C_events)
     = [0, 1, 2, 3, 4]"
  by code_simp




lemma two_segment_stopped:
  "sessionStopped (fixed_opcodes [(Equal, 0, 2, 0, 2)])
     (recognized_all (continueRecognize ''hello world'') two_segment_events)
   = Inr two_segment_result"
  by code_simp

lemma no_token_reference: "wholelyricsArryRes ''!'' = []"
  by code_simp

lemma no_token_stopped:
  "sessionStopped (fixed_opcodes [(Insert, 0, 0, 0, 2)])
     (recognized_all (continueRecognize ''!'') no_token_events)
   = Inr no_token_result"
  by code_simp

lemma no_token_classified:
  "classify (wholelyricsArryRes ''!'')
     (jo_RecognitionStatus (recognized_all (continueRecognize ''!'') no_token_events))
     (allWords (recognized_all (continueRecognize ''!'') no_token_events))
     (heap (recognized_all (continueRecognize ''!'') no_token_events), [])
     (fixed_opcodes [(Insert, 0, 0, 0, 2)] (wholelyricsArryRes ''!'')
        (resTextArray (currentText (recognized_all (continueRecognize ''!'') no_token_events))))
   = Inr (no_token_heap, [Recognized 0, Recognized 1])"
  by code_simp

lemma no_segment_stopped:
  "sessionStopped (fixed_opcodes [(Insert, 0, 0, 0, 1)]) (recognized_all (continueRecognize ''!'') [])
   = Inr no_segment_result"
  by code_simp






section \<open>The overall pronunciation score\<close>




section \<open>Omission placeholders\<close>

text \<open>
  Claim C2. Let the classifier run over a list of opcodes without throwing, and let one of
  them be a \<open>delete\<close> or \<open>replace\<close> opcode whose reference range ends within the
  reference tokens. Then the opcodes before it are classified first, and this opcode
  appends to \<open>lastWords\<close>, after the recognized words of a \<open>replace\<close>, exactly one
  placeholder with the tag \<open>Omission\<close> for each reference token of its range, in order;
  except that it appends no placeholder when its range ends at the end of the reference
  and the status of the session is neither \<open>Success\<close> nor \<open>Failed\<close>. The opcodes after it
  are classified from there.
\<close>

theorem omission_placeholders:
  assumes "classify ref st aw c (before @ (t, i1, i2, j1, j2) # after) = Inr (h', lw')"
    and "t = Delete \<or> t = Replace"
    and "i2 \<le> length ref"
  shows "\<exists>h1 lw1 h2 lw2.
           classify ref st aw c before = Inr (h1, lw1)
           \<and> classify_opcode ref st aw (h1, lw1) (t, i1, i2, j1, j2) = Inr (h2, lw2)
           \<and> lw2 = lw1
                @ (if t = Replace then map (allWords_at aw) [j1..<j2] else [])
                @ (if i2 = length ref \<and> st \<noteq> Some ''Success'' \<and> st \<noteq> Some ''Failed'' then []
                   else map (\<lambda>i. Synthesized (Some (ref ! i)) ''Omission'') [i1..<i2])
           \<and> classify ref st aw (h2, lw2) after = Inr (h', lw')"
proof -
  from assms(1) obtain h1 lw1 where 1: "classify ref st aw c before = Inr (h1, lw1)"
    and rest: "classify ref st aw (h1, lw1) ((t, i1, i2, j1, j2) # after) = Inr (h', lw')"
    by (auto simp: classify_append split: sum.splits)
  from rest obtain h2 lw2 where
    2: "classify_opcode ref st aw (h1, lw1) (t, i1, i2, j1, j2) = Inr (h2, lw2)"
    and 3: "classify ref st aw (h2, lw2) after = Inr (h', lw')"
    by (auto split: sum.splits)
  have tokens: "map (\<lambda>i. Synthesized (at_index ref i) ''Omission'') [i1..<i2]
                  = map (\<lambda>i. Synthesized (Some (ref ! i)) ''Omission'') [i1..<i2]"
    using assms(3) by (simp add: at_index_def)
  from classify_opcode_Inr(2)[OF 2] assms(2) tokens
  have "lw2 = lw1
          @ (if t = Replace then map (allWords_at aw) [j1..<j2] else [])
          @ (if i2 = length ref \<and> st \<noteq> Some ''Success'' \<and> st \<noteq> Some ''Failed'' then []
             else map (\<lambda>i. Synthesized (Some (ref ! i)) ''Omission'') [i1..<i2])"
    by (auto simp: is_terminal_def)
  with 1 2 3 show ?thesis by blast
qed

theorem omission_placeholders_witness:
  "classify [''the'', ''quick'', ''brown'', ''fox''] (Some ''Success'') [0, 1, 2]
     (scenario_B_words, [])
     ([(Equal, 0, 1, 0, 1)] @ (Delete, 1, 2, 1, 1) # [(Equal, 2, 4, 1, 3)])
   = Inr (scenario_B_words,
          [Recognized 0, Synthesized (Some ''quick'') ''Omission'', Recognized 1, Recognized 2])
   \<and> classify_opcode [''the'', ''quick'', ''brown'', ''fox''] (Some ''Success'') [0, 1, 2]
       (scenario_B_words, [Recognized 0]) (Delete, 1, 2, 1, 1)
     = Inr (scenario_B_words, [Recognized 0, Synthesized (Some ''quick'') ''Omission''])
   \<and> classify [''a'', ''b''] None [] ([], []) ([] @ (Replace, 0, 2, 0, 1) # []) = Inr ([], [Undefined])
   \<and> classify_opcode [''a'', ''b''] None [] ([], []) (Replace, 0, 2, 0, 1) = Inr ([], [Undefined])"
proof -
  let ?ref = "[''the'', ''quick'', ''brown'', ''fox'']"
  have run: "classify ?ref (Some ''Success'') [0, 1, 2] (scenario_B_words, [])
               ([(Equal, 0, 1, 0, 1)] @ (Delete, 1, 2, 1, 1) # [(Equal, 2, 4, 1, 3)])
             = Inr (scenario_B_words,
                    [Recognized 0, Synthesized (Some ''quick'') ''Omission'', Recognized 1,
                     Recognized 2])"
    by code_simp
  have pre: "classify ?ref (Some ''Success'') [0, 1, 2] (scenario_B_words, []) [(Equal, 0, 1, 0, 1)]
             = Inr (scenario_B_words, [Recognized 0])"
    by code_simp
  have step: "classify_opcode ?ref (Some ''Success'') [0, 1, 2] (scenario_B_words, [Recognized 0])
                (Delete, 1, 2, 1, 1)
              = Inr (scenario_B_words, [Recognized 0, Synthesized (Some ''quick'') ''Omission''])"
    using omission_placeholders[OF run] pre
    by (auto simp: omission_loop_def is_terminal_def at_index_def upt_rec)
  have run2: "classify [''a'', ''b''] None [] ([], []) ([] @ (Replace, 0, 2, 0, 1) # [])
                = Inr ([], [Undefined])"
    by code_simp
  have step2: "classify_opcode [''a'', ''b''] None [] ([], []) (Replace, 0, 2, 0, 1)
                = Inr ([], [Undefined])"
    using omission_placeholders[OF run2]
    by (auto simp: insertion_loop_empty is_terminal_def allWords_at_def at_index_def)
  from run step run2 step2 show ?thesis by (intro conjI)
qed


section \<open>Insertions and the accuracy score\<close>

text \<open>
  Claim C3. Take a session reached by \<open>recognized\<close> events that stops with a result, and
  the heap and \<open>lastWords\<close> that the classifier leaves. For an \<open>insert\<close> or \<open>replace\<close>
  opcode of the matcher and an index \<open>j\<close> of its recognized range at which \<open>allWords\<close>
  holds a word, that word has the tag \<open>Insertion\<close> afterwards, whatever its tag was, also
  in the words of the result, and it is an element of \<open>lastWords\<close>. The accuracy score is
  the rounded mean of one value for every element of \<open>lastWords\<close> that is a word whose tag
  is not \<open>Insertion\<close>: the accuracy score of a recognized word (\<open>0\<close> if it has none),
  and \<open>0\<close> for a placeholder; the words tagged \<open>Insertion\<close> are left out of the sum and
  of the count.
\<close>

theorem insertion_words_excluded:
  fixes reference :: string and es :: "event list"
    and getOpcodes :: "string list \<Rightarrow> string list \<Rightarrow> opcode list"
  defines "s \<equiv> recognized_all (continueRecognize reference) es"
  defines "ops \<equiv> getOpcodes (wholelyricsArryRes reference) (resTextArray (currentText s))"
  assumes "sessionStopped getOpcodes s = Inr r"
    and "classify (wholelyricsArryRes reference) (jo_RecognitionStatus s) (allWords s) (heap s, []) ops
           = Inr (h, lastWords)"
    and "(t, i1, i2, j1, j2) \<in> set ops" and "t = Insert \<or> t = Replace"
    and "j1 \<le> j" and "j < j2" and "j < length (allWords s)"
  shows "ErrorType (h ! (allWords s ! j)) = ''Insertion''
         \<and> Result_Words r ! j = h ! (allWords s ! j)
         \<and> Recognized (allWords s ! j) \<in> set lastWords
         \<and> Scores_AccuracyScore (Scores r) =
             toFixed0
               (js_div
                 (lodash_sum
                   (map (\<lambda>x. case x of
                                 Recognized a \<Rightarrow>
                                   (case AccuracyScore (h ! a) of None \<Rightarrow> Fin 0 | Some v \<Rightarrow> Fin v)
                               | _ \<Rightarrow> Fin 0)
                      (filter (\<lambda>x. case x of
                                      Undefined \<Rightarrow> False
                                    | Recognized a \<Rightarrow> ErrorType (h ! a) \<noteq> ''Insertion''
                                    | Synthesized w et \<Rightarrow> et \<noteq> ''Insertion'')
                         lastWords)))
                 (Fin (of_nat
                   (length
                      (filter (\<lambda>x. case x of
                                      Undefined \<Rightarrow> False
                                    | Recognized a \<Rightarrow> ErrorType (h ! a) \<noteq> ''Insertion''
                                    | Synthesized w et \<Rightarrow> et \<noteq> ''Insertion'')
                         lastWords)))))"
proof -
  let ?counted = "\<lambda>x. case x of
                         Undefined \<Rightarrow> False
                       | Recognized a \<Rightarrow> ErrorType (h ! a) \<noteq> ''Insertion''
                       | Synthesized w et \<Rightarrow> et \<noteq> ''Insertion''"
  let ?score = "\<lambda>x. case x of
                       Recognized a \<Rightarrow> (case AccuracyScore (h ! a) of None \<Rightarrow> Fin 0 | Some v \<Rightarrow> Fin v)
                     | _ \<Rightarrow> Fin 0"
  have ref: "referenceText s = reference"
    by (simp add: s_def recognized_all_frame continueRecognize_def)
  have wf: "\<forall>a \<in> set (allWords s). a < length (heap s)"
    using recognized_all_allWords[of reference es] by (simp add: s_def)
  from assms(3) obtain s' where calc: "calculateOverallPronunciationScore getOpcodes s = Inr s'"
    and acc: "Scores_AccuracyScore (Scores r) = accuracyScore (scoreNumber s')"
    and words: "Result_Words r = map (\<lambda>a. heap s' ! a) (allWords s')"
    by (rule sessionStopped_Inr)
  from calc obtain h0 lw0 where
    c0: "classify (wholelyricsArryRes (referenceText s)) (jo_RecognitionStatus s) (allWords s)
           (heap s, [])
           (getOpcodes (wholelyricsArryRes (referenceText s)) (resTextArray (currentText s)))
         = Inr (h0, lw0)"
    and s': "s' = s\<lparr>heap := h0, scoreNumber := scoreNumber s'\<rparr>"
    and a0: "accuracyScore (scoreNumber s') =
               toFixed0 (js_div (lodash_sum (accuracyScores h0 lw0 []))
                                (Fin (of_nat (length (accuracyScores h0 lw0 [])))))"
    by (rule calculate_Inr)
  from c0 assms(4) have same: "h0 = h" "lw0 = lastWords"
    by (simp_all add: ref ops_def)
  have hs: "heap s' = h" "allWords s' = allWords s"
    using s' same
    by (metis session.select_convs(3) session.surjective session.update_convs(2,3),
        metis session.select_convs(4) session.surjective session.update_convs(2,3))
  from classify_marks[OF assms(4,5,6) wf assms(7,8,9)]
  have marked: "ErrorType (h ! (allWords s ! j)) = ''Insertion''"
    and member: "Recognized (allWords s ! j) \<in> set lastWords"
    by simp_all
  have res: "Result_Words r ! j = h ! (allWords s ! j)"
    using words hs assms(9) by simp
  have "accuracyScores h lastWords [] = map ?score (filter ?counted lastWords)"
  proof -
    have "accuracy_entry h x \<noteq> None \<longleftrightarrow> ?counted x" for x
      by (cases x) simp_all
    moreover have "?counted x \<Longrightarrow> the (accuracy_entry h x) = ?score x" for x
      by (cases x) (simp_all split: option.splits)
    ultimately show ?thesis
      by (simp add: accuracyScores_acc List.map_filter_def cong: map_cong)
  qed
  with a0 acc same
  have "Scores_AccuracyScore (Scores r) =
          toFixed0 (js_div (lodash_sum (map ?score (filter ?counted lastWords)))
                           (Fin (of_nat (length (filter ?counted lastWords)))))"
    by simp
  with marked res member show ?thesis by (intro conjI)
qed

theorem insertion_words_excluded_witness:
  "sessionStopped (fixed_opcodes scenario_C_opcodes)
     (recognized_all (continueRecognize ''the quick brown fox'') scenario_C_events)
   = Inr scenario_C_result
   \<and> (Insert, 2, 2, 2, 3) \<in> set scenario_C_opcodes
   \<and> ErrorType (scenario_C_words ! 2) = ''None''
   \<and> AccuracyScore (scenario_C_words ! 2) = Some 50
   \<and> ErrorType (Result_Words scenario_C_result ! 2) = ''Insertion''
   \<and> Scores_AccuracyScore (Scores scenario_C_result) = Fin 85"
proof -
  let ?s = "recognized_all (continueRecognize ''the quick brown fox'') scenario_C_events"
  have blk: "(Insert, 2, 2, 2, 3)
               \<in> set (fixed_opcodes scenario_C_opcodes (wholelyricsArryRes ''the quick brown fox'')
                        (resTextArray (currentText ?s)))"
    by (simp add: fixed_opcodes_def scenario_C_opcodes_def)
  have j: "(2::nat) \<le> 2" "(2::nat) < 3" "2 < length (allWords ?s)"
    by (simp_all add: scenario_C_allWords)
  from insertion_words_excluded[OF scenario_C_stopped scenario_C_classified blk _ j]
  have "ErrorType (scenario_C_heap ! (allWords ?s ! 2)) = ''Insertion''"
    and "Result_Words scenario_C_result ! 2 = scenario_C_heap ! (allWords ?s ! 2)"
    by simp_all
  then have "ErrorType (Result_Words scenario_C_result ! 2) = ''Insertion''"
    by simp
  moreover have "ErrorType (scenario_C_words ! 2) = ''None''"
    "AccuracyScore (scenario_C_words ! 2) = Some 50"
    by (simp_all add: scenario_C_words_def example_word_def)
  moreover have "(Insert, 2, 2, 2, 3) \<in> set scenario_C_opcodes"
    by (simp add: scenario_C_opcodes_def)
  moreover have "Scores_AccuracyScore (Scores scenario_C_result) = Fin 85"
    by (simp add: scenario_C_result_def)
  ultimately show ?thesis using scenario_C_stopped by (intro conjI)
qed


section \<open>The completeness score\<close>





section \<open>The fluency score\<close>





section \<open>A reference without tokens, a session without segments\<close>

text \<open>
  Claim C6, as amended. The program has no validation step, and the completeness score is
  computed by dividing by the number of reference tokens whatever that number is. Take a
  session reached by \<open>recognized\<close> events. If it stops with a result, the completeness
  score of the result is never an infinity; if moreover the reference has no token, the
  completeness score is \<open>NaN\<close> when none of the accumulated words is tagged \<open>None\<close> after
  the classifier has run, and \<open>100\<close> otherwise (the quotient is infinite and is capped).
  A session without any segment always stops with a result: its prosody score is \<open>NaN\<close>,
  its fluency score is \<open>0\<close>, its completeness score is \<open>NaN\<close> if the reference has no
  token, and it has no words, so that the continuous path of the route answers it with a
  500 failure.
\<close>

theorem no_validation:
  fixes reference :: string and es :: "event list"
    and getOpcodes :: "string list \<Rightarrow> string list \<Rightarrow> opcode list"
  defines "s \<equiv> recognized_all (continueRecognize reference) es"
  shows "(sessionStopped getOpcodes s = Inr r
            \<longrightarrow> Scores_CompletenessScore (Scores r) \<noteq> PInf
                \<and> Scores_CompletenessScore (Scores r) \<noteq> NInf)
         \<and> (sessionStopped getOpcodes s = Inr r
             \<and> classify (wholelyricsArryRes reference) (jo_RecognitionStatus s) (allWords s)
                  (heap s, [])
                  (getOpcodes (wholelyricsArryRes reference) (resTextArray (currentText s)))
                = Inr (h, lastWords)
             \<and> wholelyricsArryRes reference = []
            \<longrightarrow> Scores_CompletenessScore (Scores r)
                  = (if filter (\<lambda>w. ErrorType w = ''None'') h = [] then NaN else Fin 100))
         \<and> (\<exists>r0. sessionStopped getOpcodes (recognized_all (continueRecognize reference) []) = Inr r0
                \<and> Scores_ProsodyScore (Scores r0) = NaN
                \<and> Scores_FluencyScore (Scores r0) = Fin 0
                \<and> Result_Words r0 = []
                \<and> (wholelyricsArryRes reference = []
                     \<longrightarrow> Scores_CompletenessScore (Scores r0) = NaN)
                \<and> (30 < audioDuration
                     \<longrightarrow> status (pronunciationAssessment audioDuration once (Some r0)) = 500))"
proof (intro conjI impI)
  assume stop: "sessionStopped getOpcodes s = Inr r"
  then obtain s' where calc: "calculateOverallPronunciationScore getOpcodes s = Inr s'"
    and sc: "Scores_CompletenessScore (Scores r) = compScore (scoreNumber s')"
    by (rule sessionStopped_Inr)
  from calc have "whole_percent (compScore (scoreNumber s'))"
    by (rule calculate_Inr) (simp only: completeness_whole_percent)
  with sc show "Scores_CompletenessScore (Scores r) \<noteq> PInf"
    and "Scores_CompletenessScore (Scores r) \<noteq> NInf"
    by (auto simp: whole_percent_def)
next
  assume a: "sessionStopped getOpcodes s = Inr r
             \<and> classify (wholelyricsArryRes reference) (jo_RecognitionStatus s) (allWords s)
                  (heap s, [])
                  (getOpcodes (wholelyricsArryRes reference) (resTextArray (currentText s)))
                = Inr (h, lastWords)
             \<and> wholelyricsArryRes reference = []"
  from a have stop: "sessionStopped getOpcodes s = Inr r"
    and cl: "classify (wholelyricsArryRes reference) (jo_RecognitionStatus s) (allWords s)
               (heap s, [])
               (getOpcodes (wholelyricsArryRes reference) (resTextArray (currentText s)))
             = Inr (h, lastWords)"
    and empty: "wholelyricsArryRes reference = []"
    by blast+
  have ref: "referenceText s = reference"
    by (simp add: s_def recognized_all_frame continueRecognize_def)
  have rw: "recognizedWords s = [0..<length (heap s)]"
    unfolding s_def by (rule recognized_all_recognizedWords)
  from cl have "retagged (heap s) h" by (rule classify_Inr(1))
  then have len: "length h = length (heap s)"
    by (rule retagged_length)
  from stop obtain s' where calc: "calculateOverallPronunciationScore getOpcodes s = Inr s'"
    and sc: "Scores_CompletenessScore (Scores r) = compScore (scoreNumber s')"
    by (rule sessionStopped_Inr)
  from calc obtain h0 lw0 where
    c0: "classify (wholelyricsArryRes (referenceText s)) (jo_RecognitionStatus s) (allWords s)
           (heap s, [])
           (getOpcodes (wholelyricsArryRes (referenceText s)) (resTextArray (currentText s)))
         = Inr (h0, lw0)"
    and comp: "compScore (scoreNumber s') =
       (let comp = toFixed0
                     (js_mul
                       (js_div
                         (Fin (of_nat (length (filter (\<lambda>a. ErrorType (h0 ! a) = ''None'')
                                                 (recognizedWords s)))))
                         (Fin (of_nat (length (wholelyricsArryRes (referenceText s))))))
                       (Fin 100))
        in if js_gt comp (Fin 100) then Fin 100 else comp)"
    by (rule calculate_Inr)
  from c0 cl have same: "h0 = h" by (simp add: ref)
  have count: "length (filter (\<lambda>a. ErrorType (h ! a) = ''None'') (recognizedWords s))
                 = length (filter (\<lambda>w. ErrorType w = ''None'') h)"
    using length_filter_nth[of "\<lambda>w. ErrorType w = ''None''" h] by (simp add: rw len)
  from empty have m: "length (wholelyricsArryRes reference) = 0" by simp
  show "Scores_CompletenessScore (Scores r)
          = (if filter (\<lambda>w. ErrorType w = ''None'') h = [] then NaN else Fin 100)"
    unfolding sc comp same ref count m
    by (cases "filter (\<lambda>w. ErrorType w = ''None'') h = []") simp_all
next
  let ?s0 = "recognized_all (continueRecognize reference) []"
  have fields: "allWords ?s0 = []" "recognizedWords ?s0 = []" "prosodyScores ?s0 = []"
    "startOffset ?s0 = 0" "fluencyScore (scoreNumber ?s0) = Fin 0" "referenceText ?s0 = reference"
    by (simp_all add: recognized_all_Nil continueRecognize_def)
  from classify_no_words[of "wholelyricsArryRes (referenceText ?s0)" "jo_RecognitionStatus ?s0"
         "heap ?s0" "[]"
         "getOpcodes (wholelyricsArryRes (referenceText ?s0)) (resTextArray (currentText ?s0))"]
  obtain lw where "classify (wholelyricsArryRes (referenceText ?s0)) (jo_RecognitionStatus ?s0)
         (allWords ?s0) (heap ?s0, [])
         (getOpcodes (wholelyricsArryRes (referenceText ?s0)) (resTextArray (currentText ?s0)))
       = Inr (heap ?s0, lw)"
    by (auto simp: fields(1))
  then obtain s' where calc: "calculateOverallPronunciationScore getOpcodes ?s0 = Inr s'"
    by (simp add: calculateOverallPronunciationScore_def Let_def)
  then obtain r0 where stop: "sessionStopped getOpcodes ?s0 = Inr r0"
    by (simp add: sessionStopped_def)
  from stop obtain s1 where calc1: "calculateOverallPronunciationScore getOpcodes ?s0 = Inr s1"
    and sc: "Scores_CompletenessScore (Scores r0) = compScore (scoreNumber s1)"
      "Scores_FluencyScore (Scores r0) = fluencyScore (scoreNumber s1)"
      "Scores_ProsodyScore (Scores r0) = prosodyScore (scoreNumber s1)"
      "Result_Words r0 = map (\<lambda>a. heap s1 ! a) (allWords s1)"
    by (rule sessionStopped_Inr)
  from calc1 obtain h1 lw1 where
    s1: "s1 = ?s0\<lparr>heap := h1, scoreNumber := scoreNumber s1\<rparr>"
    and comp: "compScore (scoreNumber s1) =
       (let comp = toFixed0
                     (js_mul
                       (js_div
                         (Fin (of_nat (length (filter (\<lambda>a. ErrorType (h1 ! a) = ''None'')
                                                 (recognizedWords ?s0)))))
                         (Fin (of_nat (length (wholelyricsArryRes (referenceText ?s0))))))
                       (Fin 100))
        in if js_gt comp (Fin 100) then Fin 100 else comp)"
    and flu: "fluencyScore (scoreNumber s1) =
       (if startOffset ?s0 \<noteq> 0
        then js_div (lodash_sum (sumRes (durations ?s0) 0 (fluencyScores ?s0)))
                    (lodash_sum (map (\<lambda>d. Fin (of_nat d)) (durations ?s0)))
        else fluencyScore (scoreNumber ?s0))"
    and pro: "prosodyScore (scoreNumber s1) =
       js_div (lodash_sum (map Fin (prosodyScores ?s0)))
              (Fin (of_nat (length (prosodyScores ?s0))))"
    by (rule calculate_Inr)
  have aw: "allWords s1 = []"
    using s1 fields(1)
    by (metis session.select_convs(4) session.surjective session.update_convs(2,3))
  have 1: "Scores_ProsodyScore (Scores r0) = NaN"
    unfolding sc pro fields by (simp add: lodash_sum_def)
  have 2: "Scores_FluencyScore (Scores r0) = Fin 0"
    unfolding sc flu fields by simp
  have 3: "Result_Words r0 = []"
    unfolding sc aw by simp
  have 4: "wholelyricsArryRes reference = [] \<longrightarrow> Scores_CompletenessScore (Scores r0) = NaN"
    unfolding sc comp fields by simp
  have 5: "30 < audioDuration
             \<longrightarrow> status (pronunciationAssessment audioDuration once (Some r0)) = 500"
    using 3 by (simp add: pronunciationAssessment_def isShortAudio_def)
  from stop 1 2 3 4 5
  show "\<exists>r0. sessionStopped getOpcodes ?s0 = Inr r0
                \<and> Scores_ProsodyScore (Scores r0) = NaN
                \<and> Scores_FluencyScore (Scores r0) = Fin 0
                \<and> Result_Words r0 = []
                \<and> (wholelyricsArryRes reference = []
                     \<longrightarrow> Scores_CompletenessScore (Scores r0) = NaN)
                \<and> (30 < audioDuration
                     \<longrightarrow> status (pronunciationAssessment audioDuration once (Some r0)) = 500)"
    by blast
qed

theorem no_validation_witness:
  "sessionStopped (fixed_opcodes [(Insert, 0, 0, 0, 2)])
     (recognized_all (continueRecognize ''!'') no_token_events)
   = Inr no_token_result
   \<and> wholelyricsArryRes ''!'' = []
   \<and> filter (\<lambda>w. ErrorType w = ''None'') no_token_heap = []
   \<and> Scores_CompletenessScore (Scores no_token_result) = NaN
   \<and> sessionStopped (fixed_opcodes [(Insert, 0, 0, 0, 1)])
       (recognized_all (continueRecognize ''!'') [])
     = Inr no_segment_result
   \<and> Scores_ProsodyScore (Scores no_segment_result) = NaN
   \<and> Scores_CompletenessScore (Scores no_segment_result) = NaN
   \<and> (30 :: rat) < 45
   \<and> status (pronunciationAssessment 45 None (Some no_segment_result)) = 500"
proof -
  have none: "filter (\<lambda>w. ErrorType w = ''None'') no_token_heap = []"
    by (simp add: no_token_heap_def example_word_def)
  have d: "(30 :: rat) < 45" by simp
  from no_validation[of "fixed_opcodes [(Insert, 0, 0, 0, 2)]" "''!''" no_token_events
         no_token_result no_token_heap "[Recognized 0, Recognized 1]"]
    no_token_stopped no_token_classified no_token_reference none
  have 1: "Scores_CompletenessScore (Scores no_token_result) = NaN"
    by simp
  from no_validation[of "fixed_opcodes [(Insert, 0, 0, 0, 1)]" "''!''" "[]" _ _ _ 45 None]
    no_segment_stopped no_token_reference d
  have 2: "Scores_ProsodyScore (Scores no_segment_result) = NaN
           \<and> Scores_CompletenessScore (Scores no_segment_result) = NaN
           \<and> status (pronunciationAssessment 45 None (Some no_segment_result)) = 500"
    by auto
  from no_token_stopped no_token_reference none 1 no_segment_stopped 2 d show ?thesis
    by (intro conjI) simp_all
qed

text \<open>
  The claim as it is written fails: with a reference that has no token and two recognized
  words the session stops with a result, not with an error, the completeness score of
  the result is \<open>NaN\<close>, and the route answers the request with status 200.
\<close>

theorem no_validation_counterexample:
  "wholelyricsArryRes ''!'' = []
   \<and> sessionStopped (fixed_opcodes [(Insert, 0, 0, 0, 2)])
       (recognized_all (continueRecognize ''!'') no_token_events)
     = Inr no_token_result
   \<and> Scores_CompletenessScore (Scores no_token_result) = NaN
   \<and> status (pronunciationAssessment 45 None (Some no_token_result)) = 200"
proof -
  have "Scores_CompletenessScore (Scores no_token_result) = NaN"
    by (simp add: no_token_result_def)
  moreover have "status (pronunciationAssessment 45 None (Some no_token_result)) = 200"
    by (simp add: pronunciationAssessment_def isShortAudio_def no_token_result_def
                  no_token_heap_def)
  ultimately show ?thesis using no_token_reference no_token_stopped by simp
qed


section \<open>The range of the returned scores\<close>

text \<open>
  Claim C7, as amended. Take a session reached by \<open>recognized\<close> events that stops with a
  result, and let every score that the engine sent (the accuracy score of a word, the
  fluency and the prosody score of a segment) lie between 0 and 100. Then the accuracy,
  the completeness and the pronunciation score of the result are each \<open>NaN\<close> or an
  integer from 0 to 100, and the fluency and the prosody score are each \<open>NaN\<close> or a
  number from 0 to 100. The program rounds the first three and caps the completeness
  score at 100; it does not round the fluency and the prosody score, and it clamps
  nothing else.
\<close>

theorem returned_scores_range:
  fixes reference :: string and es :: "event list"
    and getOpcodes :: "string list \<Rightarrow> string list \<Rightarrow> opcode list"
  assumes "sessionStopped getOpcodes (recognized_all (continueRecognize reference) es) = Inr r"
    and "\<forall>e \<in> set es. 0 \<le> FluencyScore e \<and> FluencyScore e \<le> 100
            \<and> 0 \<le> ProsodyScore e \<and> ProsodyScore e \<le> 100
            \<and> (\<forall>w \<in> set (Words e). \<forall>x. AccuracyScore w = Some x \<longrightarrow> 0 \<le> x \<and> x \<le> 100)"
  shows "whole_percent (Scores_AccuracyScore (Scores r))
         \<and> whole_percent (Scores_CompletenessScore (Scores r))
         \<and> percent (Scores_FluencyScore (Scores r))
         \<and> percent (Scores_ProsodyScore (Scores r))
         \<and> (\<exists>x. Scores_PronScore (Scores r) = Some x \<and> whole_percent x)"
proof -
  let ?s = "recognized_all (continueRecognize reference) es"
  let ?segs = "filter (\<lambda>e. Words e \<noteq> []) es"
  let ?dur = "\<lambda>e. sum_list (map Duration (Words e))"
  from assms(1) obtain s' where calc: "calculateOverallPronunciationScore getOpcodes ?s = Inr s'"
    and sc: "Scores_AccuracyScore (Scores r) = accuracyScore (scoreNumber s')"
      "Scores_CompletenessScore (Scores r) = compScore (scoreNumber s')"
      "Scores_FluencyScore (Scores r) = fluencyScore (scoreNumber s')"
      "Scores_PronScore (Scores r) = pronScore (scoreNumber s')"
      "Scores_ProsodyScore (Scores r) = prosodyScore (scoreNumber s')"
    by (rule sessionStopped_Inr)
  from calc obtain h lw where
    cl: "classify (wholelyricsArryRes (referenceText ?s)) (jo_RecognitionStatus ?s) (allWords ?s)
           (heap ?s, [])
           (getOpcodes (wholelyricsArryRes (referenceText ?s)) (resTextArray (currentText ?s)))
         = Inr (h, lw)"
    and comp: "compScore (scoreNumber s') =
       (let comp = toFixed0
                     (js_mul
                       (js_div
                         (Fin (of_nat (length (filter (\<lambda>a. ErrorType (h ! a) = ''None'')
                                                 (recognizedWords ?s)))))
                         (Fin (of_nat (length (wholelyricsArryRes (referenceText ?s))))))
                       (Fin 100))
        in if js_gt comp (Fin 100) then Fin 100 else comp)"
    and acc: "accuracyScore (scoreNumber s') =
       toFixed0 (js_div (lodash_sum (accuracyScores h lw []))
                        (Fin (of_nat (length (accuracyScores h lw [])))))"
    and flu: "fluencyScore (scoreNumber s') =
       (if startOffset ?s \<noteq> 0
        then js_div (lodash_sum (sumRes (durations ?s) 0 (fluencyScores ?s)))
                    (lodash_sum (map (\<lambda>d. Fin (of_nat d)) (durations ?s)))
        else fluencyScore (scoreNumber ?s))"
    and pro: "prosodyScore (scoreNumber s') =
       js_div (lodash_sum (map Fin (prosodyScores ?s))) (Fin (of_nat (length (prosodyScores ?s))))"
    and pron: "pronScore (scoreNumber s') =
       Some (pronScore_of (jo_RecognitionStatus ?s)
              ((scoreNumber s')\<lparr>pronScore := pronScore (scoreNumber ?s)\<rparr>))"
    by (rule calculate_Inr)
  from recognized_all_lists[of reference es]
  have fs: "fluencyScores ?s = map FluencyScore ?segs"
    and ps: "prosodyScores ?s = map ProsodyScore ?segs"
    and ds: "durations ?s = map ?dur ?segs"
    by simp_all
  have hp: "heap ?s = concat (map Words es)"
    by (rule recognized_all_heap)
  have wf: "\<forall>a \<in> set (allWords ?s). a < length (heap ?s)"
    using recognized_all_allWords[of reference es] by simp
  have init: "fluencyScore (scoreNumber ?s) = Fin 0" "pronScore (scoreNumber ?s) = None"
    by (simp_all add: recognized_all_frame continueRecognize_def)

  have c_ok: "whole_percent (compScore (scoreNumber s'))"
    unfolding comp by (rule completeness_whole_percent)

  have entries: "\<forall>x \<in> set lw. \<forall>v. accuracy_entry h x = Some v
                   \<longrightarrow> (\<exists>q. v = Fin q \<and> 0 \<le> q \<and> q \<le> 100)"
  proof (intro ballI allI impI)
    fix x v
    assume x: "x \<in> set lw" and v: "accuracy_entry h x = Some v"
    from classify_Inr(3)[OF cl] x
    consider "x = Undefined" | j where "j < length (allWords ?s)" "x = Recognized (allWords ?s ! j)"
      | w where "x = Synthesized w ''Omission''"
      by auto
    then show "\<exists>q. v = Fin q \<and> 0 \<le> q \<and> q \<le> 100"
    proof cases
      case 1
      with v show ?thesis by simp
    next
      case 2
      let ?a = "allWords ?s ! j"
      from 2(1) wf have a: "?a < length (heap ?s)" by simp
      from classify_Inr(1)[OF cl] a
      have same: "AccuracyScore (h ! ?a) = AccuracyScore (heap ?s ! ?a)"
        by (rule retagged_AccuracyScore)
      from a have "heap ?s ! ?a \<in> set (concat (map Words es))"
        unfolding hp[symmetric] by (rule nth_mem)
      then obtain e where "e \<in> set es" "heap ?s ! ?a \<in> set (Words e)" by auto
      with assms(2)
      have "\<forall>q. AccuracyScore (heap ?s ! ?a) = Some q \<longrightarrow> 0 \<le> q \<and> q \<le> 100"
        by blast
      with v 2(2) same show ?thesis
        by (auto split: if_splits option.splits)
    next
      case 3
      with v show ?thesis by (auto split: if_splits)
    qed
  qed
  from accuracyScores_percent[OF entries] obtain vs where
    vs: "accuracyScores h lw [] = map Fin vs" "\<forall>v \<in> set vs. 0 \<le> v \<and> v \<le> 100"
    by blast
  have "percent (js_div (lodash_sum (accuracyScores h lw []))
                        (Fin (of_nat (length (accuracyScores h lw [])))))"
    unfolding vs(1) lodash_sum_Fin length_map using vs(2) by (rule percent_mean)
  then have a_ok: "whole_percent (accuracyScore (scoreNumber s'))"
    unfolding acc by (rule whole_percent_toFixed0)

  have f_ok: "percent (fluencyScore (scoreNumber s'))"
  proof (cases "startOffset ?s \<noteq> 0")
    case True
    have "\<forall>e \<in> set ?segs. 0 \<le> FluencyScore e \<and> FluencyScore e \<le> 100"
      using assms(2) by simp
    then have "percent (js_div (Fin (sum_list (map (\<lambda>e. FluencyScore e * of_nat (?dur e)) ?segs)))
                               (Fin (of_nat (sum_list (map ?dur ?segs)))))"
      by (rule percent_weighted_mean)
    moreover have "lodash_sum (sumRes (durations ?s) 0 (fluencyScores ?s))
                     = Fin (sum_list (map (\<lambda>e. FluencyScore e * of_nat (?dur e)) ?segs))"
      unfolding fs ds sumRes_map0 by (rule lodash_sum_map_Fin)
    moreover have "lodash_sum (map (\<lambda>d. Fin (of_nat d)) (durations ?s))
                     = Fin (of_nat (sum_list (map ?dur ?segs)))"
      unfolding ds by (rule lodash_sum_nat)
    ultimately show ?thesis
      unfolding flu if_P[OF True] by (simp only:)
  next
    case False
    with flu init show ?thesis by (simp add: percent_def)
  qed

  have "\<forall>v \<in> set (prosodyScores ?s). 0 \<le> v \<and> v \<le> 100"
    unfolding ps using assms(2) by simp
  then have p_ok: "percent (prosodyScore (scoreNumber s'))"
    unfolding pro lodash_sum_Fin by (rule percent_mean)

  let ?sn = "(scoreNumber s')\<lparr>pronScore := pronScore (scoreNumber ?s)\<rparr>"
  have "whole_percent (pronScore_of (jo_RecognitionStatus ?s) ?sn)"
    using init(2) a_ok f_ok c_ok p_ok
    by (intro pronScore_of_percent) (simp_all add: whole_percent_percent)
  with pron have "\<exists>x. pronScore (scoreNumber s') = Some x \<and> whole_percent x"
    by simp
  with a_ok c_ok f_ok p_ok sc show ?thesis by simp
qed

theorem returned_scores_range_witness:
  "sessionStopped (fixed_opcodes [(Equal, 0, 2, 0, 2)])
     (recognized_all (continueRecognize ''hello world'') two_segment_events)
   = Inr two_segment_result
   \<and> whole_percent (Fin 100) \<and> percent (Fin 90) \<and> percent (Fin (165 / 2))
   \<and> Scores_PronScore (Scores two_segment_result) = Some (Fin 91) \<and> whole_percent (Fin 91)"
proof -
  have valid: "\<forall>e \<in> set two_segment_events. 0 \<le> FluencyScore e \<and> FluencyScore e \<le> 100
            \<and> 0 \<le> ProsodyScore e \<and> ProsodyScore e \<le> 100
            \<and> (\<forall>w \<in> set (Words e). \<forall>x. AccuracyScore w = Some x \<longrightarrow> 0 \<le> x \<and> x \<le> 100)"
    by (simp add: two_segment_events_def example_event_def example_word_def)
  from returned_scores_range[OF two_segment_stopped valid]
  have "whole_percent (Fin 100)" "percent (Fin 90)" "percent (Fin (165 / 2))"
    "whole_percent (Fin 91)"
    by (simp_all add: two_segment_result_def)
  moreover have "Scores_PronScore (Scores two_segment_result) = Some (Fin 91)"
    by (simp add: two_segment_result_def)
  ultimately show ?thesis using two_segment_stopped by (intro conjI)
qed

text \<open>
  The claim as it is written fails for the prosody score: with two segments whose
  prosody scores are 80 and 85 the result holds their mean 82.5, which is not rounded.
\<close>

theorem returned_scores_range_counterexample:
  "sessionStopped (fixed_opcodes [(Equal, 0, 2, 0, 2)])
     (recognized_all (continueRecognize ''hello world'') two_segment_events)
   = Inr two_segment_result
   \<and> Scores_ProsodyScore (Scores two_segment_result) = Fin (165 / 2)
   \<and> toFixed0 (Fin (165 / 2)) = Fin 83
   \<and> Scores_ProsodyScore (Scores two_segment_result)
       \<noteq> toFixed0 (Scores_ProsodyScore (Scores two_segment_result))"
proof -
  have p: "Scores_ProsodyScore (Scores two_segment_result) = Fin (165 / 2)"
    by (simp add: two_segment_result_def)
  have "\<lfloor>(83 :: rat)\<rfloor> = 83" by simp
  then have r: "toFixed0 (Fin (165 / 2)) = Fin 83"
    by (simp add: round_half_away_def)
  from two_segment_stopped p r show ?thesis by simp
qed


section \<open>The token sequences\<close>

text \<open>
  Claim C8, as amended. Every reference token equals its trimmed form, and if the
  reference text holds no white space other than the space character, no reference token
  is empty. The recognized text is only split at the single spaces: its tokens are
  neither filtered nor trimmed, so that joining them with single spaces gives the
  normalised recognized text back, and there is always at least one token.
\<close>

theorem token_sequences:
  "(t \<in> set (wholelyricsArryRes reference) \<longrightarrow> trim t = t)
   \<and> ((\<forall>c \<in> set reference. is_whitespace c \<longrightarrow> c = CHR '' '')
        \<longrightarrow> [] \<notin> set (wholelyricsArryRes reference))
   \<and> join_space (resTextArray ws) = normalize_text (join_space ws)
   \<and> resTextArray ws \<noteq> []"
proof (intro conjI impI)
  assume "t \<in> set (wholelyricsArryRes reference)"
  then obtain p where "t = trim p"
    by (auto simp: wholelyricsArryRes_def)
  then show "trim t = t" by (simp add: trim_idem)
next
  assume plain: "\<forall>c \<in> set reference. is_whitespace c \<longrightarrow> c = CHR '' ''"
  have sp: "toLowerCase_char (CHR '' '') = CHR '' ''"
    by (simp add: toLowerCase_char_def)
  have norm: "c = CHR '' ''" if "c \<in> set (normalize_text reference)" "is_whitespace c" for c
  proof -
    from that(1) obtain c' where c': "c' \<in> set reference" "c = toLowerCase_char c'"
      by (auto simp: normalize_text_def delete_brackets_def delete_punctuation_def
                     toLocaleLowerCase_def)
    with that(2) have "is_whitespace c'"
      by (simp add: toLowerCase_char_whitespace)
    with plain c'(1) have "c' = CHR '' ''" by simp
    with c'(2) sp show ?thesis by simp
  qed
  show "[] \<notin> set (wholelyricsArryRes reference)"
  proof
    assume "[] \<in> set (wholelyricsArryRes reference)"
    then obtain p where p: "p \<in> set (split_space (normalize_text reference))" "p \<noteq> []"
      "trim p = []"
      by (auto simp: wholelyricsArryRes_def)
    from split_space_pieces[OF p(1)] norm have "\<forall>c \<in> set p. \<not> is_whitespace c"
      by auto
    then have "trim p = p" by (rule trim_no_whitespace)
    with p(2,3) show False by simp
  qed
next
  show "join_space (resTextArray ws) = normalize_text (join_space ws)"
    by (simp add: resTextArray_def join_split_space)
next
  show "resTextArray ws \<noteq> []"
    by (simp add: resTextArray_def split_space_nonempty)
qed

theorem token_sequences_witness:
  "''quick'' \<in> set (wholelyricsArryRes ''The quick, brown fox.'')
   \<and> trim ''quick'' = ''quick''
   \<and> wholelyricsArryRes ''The quick, brown fox.'' = [''the'', ''quick'', ''brown'', ''fox'']
   \<and> [] \<notin> set (wholelyricsArryRes ''The quick, brown fox.'')
   \<and> join_space (resTextArray [''the'', ''fox'']) = normalize_text (join_space [''the'', ''fox''])
   \<and> resTextArray [''the'', ''fox''] \<noteq> []"
proof -
  have tokens: "wholelyricsArryRes ''The quick, brown fox.'' = [''the'', ''quick'', ''brown'', ''fox'']"
    by code_simp
  then have mem: "''quick'' \<in> set (wholelyricsArryRes ''The quick, brown fox.'')"
    by simp
  have plain: "\<forall>c \<in> set ''The quick, brown fox.''. is_whitespace c \<longrightarrow> c = CHR '' ''"
    by code_simp
  from token_sequences[of "''quick''" "''The quick, brown fox.''" "[''the'', ''fox'']"] mem plain
  have "trim ''quick'' = ''quick''"
    and "[] \<notin> set (wholelyricsArryRes ''The quick, brown fox.'')"
    and "join_space (resTextArray [''the'', ''fox'']) = normalize_text (join_space [''the'', ''fox''])"
    and "resTextArray [''the'', ''fox''] \<noteq> []"
    by blast+
  with mem tokens show ?thesis by (intro conjI)
qed

text \<open>
  The claim as it is written fails for the recognized text: when no word has been
  recognized, the token sequence that is passed to the matcher is one empty token.
\<close>

theorem token_sequences_counterexample:
  "resTextArray [] = [[]] \<and> [] \<in> set (resTextArray [])"
proof -
  have "resTextArray [] = [[]]" by code_simp
  then show ?thesis by simp
qed


section \<open>The accumulated words\<close>

text \<open>
  Claim C9, as amended. After any sequence of \<open>recognized\<close> events the words that
  \<open>recognizedWords\<close> refers to are the concatenation, in arrival order, of the word lists
  of all events, and \<open>currentText\<close> is the concatenation of their lower-cased texts,
  whatever the status of an event is. The words that \<open>allWords\<close> refers to, which the
  classifier indexes and the result returns, are the concatenation of the word lists of
  the events whose status is \<open>Success\<close> only.
\<close>

theorem accumulated_words:
  "map (\<lambda>a. heap (recognized_all (continueRecognize text) es) ! a)
       (recognizedWords (recognized_all (continueRecognize text) es))
     = concat (map Words es)
   \<and> currentText (recognized_all (continueRecognize text) es)
     = concat (map (\<lambda>e. map (\<lambda>item. toLowerCase (Word item)) (Words e)) es)
   \<and> map (\<lambda>a. heap (recognized_all (continueRecognize text) es) ! a)
         (allWords (recognized_all (continueRecognize text) es))
     = concat (map Words (filter (\<lambda>e. RecognitionStatus e = ''Success'') es))"
proof -
  let ?s = "recognized_all (continueRecognize text) es"
  have "map (\<lambda>a. heap ?s ! a) (recognizedWords ?s) = heap ?s"
    by (simp add: recognized_all_recognizedWords map_nth)
  then have "map (\<lambda>a. heap ?s ! a) (recognizedWords ?s) = concat (map Words es)"
    by (simp add: recognized_all_heap)
  with recognized_all_currentText[of "text" es] recognized_all_allWords[of "text" es]
  show ?thesis by (intro conjI) simp_all
qed

text \<open>
  The claim as it is written fails for \<open>allWords\<close>: the word of a segment whose status
  is not \<open>Success\<close> is not accumulated there.
\<close>

theorem accumulated_words_counterexample:
  "concat (map Words unsuccessful_events) = [example_word ''hello'' 5 10 100]
   \<and> map (\<lambda>a. heap (recognized_all (continueRecognize ''hello'') unsuccessful_events) ! a)
         (allWords (recognized_all (continueRecognize ''hello'') unsuccessful_events))
     = []
   \<and> map (\<lambda>a. heap (recognized_all (continueRecognize ''hello'') unsuccessful_events) ! a)
         (allWords (recognized_all (continueRecognize ''hello'') unsuccessful_events))
     \<noteq> concat (map Words unsuccessful_events)"
proof -
  have 1: "concat (map Words unsuccessful_events) = [example_word ''hello'' 5 10 100]"
    by (simp add: unsuccessful_events_def example_event_def)
  have 2: "allWords (recognized_all (continueRecognize ''hello'') unsuccessful_events) = []"
    by code_simp
  from 1 2 show ?thesis by simp
qed


section \<open>The response of the continuous path\<close>

text \<open>
  Claim C10. A request whose audio duration is greater than 30 seconds takes the
  continuous path. There the response is a 500 failure whenever the result that the
  session resolved with has no word or one word, whatever its scores are, and a 200
  response is given only for a resolved result with at least two words. The words of the
  result are those of \<open>allWords\<close>.
\<close>

theorem continuous_success_needs_two_words:
  assumes "30 < audioDuration"
  shows "(cont = Some res \<and> length (Result_Words res) \<le> 1
            \<longrightarrow> status (pronunciationAssessment audioDuration once cont) = 500)
         \<and> (status (pronunciationAssessment audioDuration once cont) = 200
            \<longrightarrow> (\<exists>res'. cont = Some res' \<and> 2 \<le> length (Result_Words res')))
         \<and> (sessionStopped getOpcodes s = Inr res
            \<longrightarrow> length (Result_Words res) = length (allWords s))"
proof -
  from assms have short: "\<not> isShortAudio audioDuration"
    by (simp add: isShortAudio_def)
  have words: "length (Result_Words res) = length (allWords s)"
    if "sessionStopped getOpcodes s = Inr res"
  proof -
    from that obtain s' where c: "calculateOverallPronunciationScore getOpcodes s = Inr s'"
      and w: "Result_Words res = map (\<lambda>a. heap s' ! a) (allWords s')"
      by (rule sessionStopped_Inr)
    from c obtain h where "s' = s\<lparr>heap := h, scoreNumber := scoreNumber s'\<rparr>"
      by (rule calculate_Inr)
    then have "allWords s' = allWords s"
      by (metis session.select_convs(4) session.surjective session.update_convs(2,3))
    with w show ?thesis by simp
  qed
  from short words show ?thesis
    by (auto simp: pronunciationAssessment_def catch_response_def split: option.splits)
qed

theorem continuous_success_needs_two_words_witness:
  "(30 :: rat) < 45
   \<and> sessionStopped (fixed_opcodes [(Equal, 0, 1, 0, 1)])
         (recognized_all (continueRecognize ''hello'') one_word_events)
       = Inr one_word_result
   \<and> Scores_PronScore (Scores one_word_result) = Some (Fin 100)
   \<and> length (Result_Words one_word_result) = 1
   \<and> status (pronunciationAssessment 45 None (Some one_word_result)) = 500
   \<and> status (pronunciationAssessment 45 None (Some scenario_B_result)) = 200
   \<and> 2 \<le> length (Result_Words scenario_B_result)"
proof -
  have d: "(30 :: rat) < 45" by simp
  have one: "length (Result_Words one_word_result) = 1"
    by (simp add: one_word_result_def)
  have ok: "status (pronunciationAssessment 45 None (Some scenario_B_result)) = 200"
    by (simp add: pronunciationAssessment_def isShortAudio_def scenario_B_result_def
                  scenario_B_words_def)
  from continuous_success_needs_two_words[OF d, of "Some one_word_result" one_word_result None]
    one
  have fail: "status (pronunciationAssessment 45 None (Some one_word_result)) = 500"
    by simp
  from continuous_success_needs_two_words[OF d, of "Some scenario_B_result" _ None] ok
  have "2 \<le> length (Result_Words scenario_B_result)"
    by auto
  with d one_word_stopped one ok fail show ?thesis
    by (simp add: one_word_result_def)
qed

end
